theory Spec2Isabelle
  imports Main "HOL-Library.Word"
begin

section \<open>Basic types\<close>

text \<open>
  Go's \<open>byte\<close> is an 8-bit word, \<open>int\<close> (on a 64-bit platform) and \<open>common.Fixed64\<close> are
  64-bit words read as two's complement, \<open>uint32\<close> and \<open>uint64\<close> are unsigned words.
  Slices are lists: a nil slice and an empty slice are both \<open>[]\<close>, since the program
  only ever looks at their length and elements.
\<close>

type_synonym byte = "8 word"
type_synonym int64 = "64 word"
type_synonym Fixed64 = "64 word"

datatype error =
    NoServiceProviders string
  | SyntaxError
  | UnmarshalTypeError string
  | ErrShortWrite
  | EOF
  | ExternalError string

section \<open>Metadata codec\<close>

record Metadata =
  IP :: string
  TCPPort :: int64
  UDPPort :: int64
  ServiceId :: byte
  ServiceTCP :: "int64 list"
  ServiceUDP :: "int64 list"
  Price :: string
  BeneficiaryAddr :: string

text \<open>The zero value \<open>Metadata{}\<close>.\<close>

definition zeroMetadata :: Metadata where
  "zeroMetadata = \<lparr>IP = [], TCPPort = 0, UDPPort = 0, ServiceId = 0, ServiceTCP = [],
     ServiceUDP = [], Price = [], BeneficiaryAddr = []\<rparr>"

text \<open>
  A JSON document as a value tree. \<open>JInt n\<close> is a number literal that is an integer
  (of any size) other than the literal \<open>-0\<close>, which is \<open>JNegZero\<close>: \<open>strconv.ParseInt\<close>
  reads it as 0 and \<open>strconv.ParseUint\<close> rejects it. \<open>JFrac\<close> is any other number
  literal.
\<close>

datatype json =
    JNull
  | JBool bool
  | JInt int
  | JNegZero
  | JFrac
  | JString string
  | JArray "json list"
  | JObject "(string \<times> json) list"

text \<open>
  The parts of Go's \<open>encoding/json\<close> that do not depend on the struct being coded are
  parameters: \<open>scan\<close> reads a text into its value tree (\<open>None\<close> for a text that is not
  valid JSON, which \<open>json.Unmarshal\<close> rejects before it stores anything), \<open>render\<close> writes
  a value tree as text, and \<open>equalFold\<close> is the case-insensitive comparison of a field
  name with an object key.
\<close>

record encoding_json =
  scan :: "string \<Rightarrow> json option"
  render :: "json \<Rightarrow> string"
  equalFold :: "string \<Rightarrow> string \<Rightarrow> bool"

text \<open>
  \<open>json.Marshal\<close> of a \<open>Metadata\<close>, following the struct tags: the first four fields are
  always written, the four tagged \<open>omitempty\<close> only when they are not empty.
\<close>

definition marshalMetadata :: "Metadata \<Rightarrow> json" where
  "marshalMetadata m = JObject (
     [(''ip'', JString (IP m)),
      (''tcpPort'', JInt (sint (TCPPort m))),
      (''udpPort'', JInt (sint (UDPPort m))),
      (''serviceId'', JInt (uint (ServiceId m)))]
     @ (if ServiceTCP m = [] then [] else [(''serviceTcp'', JArray (map (\<lambda>x. JInt (sint x)) (ServiceTCP m)))])
     @ (if ServiceUDP m = [] then [] else [(''serviceUdp'', JArray (map (\<lambda>x. JInt (sint x)) (ServiceUDP m)))])
     @ (if Price m = [] then [] else [(''price'', JString (Price m))])
     @ (if BeneficiaryAddr m = [] then [] else [(''beneficiaryAddr'', JString (BeneficiaryAddr m))]))"

definition CreateRawMetadata ::
  "'x encoding_json_scheme \<Rightarrow> byte \<Rightarrow> int64 list \<Rightarrow> int64 list \<Rightarrow> string \<Rightarrow> int64 \<Rightarrow> int64 \<Rightarrow> string \<Rightarrow> string
     \<Rightarrow> string" where
  "CreateRawMetadata lib serviceId serviceTCP serviceUDP ip tcpPort udpPort price beneficiaryAddr =
     render lib (marshalMetadata
       \<lparr>IP = ip, TCPPort = tcpPort, UDPPort = udpPort, ServiceId = serviceId,
        ServiceTCP = serviceTCP, ServiceUDP = serviceUDP, Price = price,
        BeneficiaryAddr = beneficiaryAddr\<rparr>)"

text \<open>
  \<open>json.Unmarshal\<close> into a \<open>*Metadata\<close>. A value of the wrong type for its field is
  not stored; the decoder remembers the first such error, keeps decoding, and returns the
  error at the end. \<open>null\<close> leaves a string or a number as it is and empties a slice.
\<close>

definition saveError :: "error \<Rightarrow> error option \<Rightarrow> error option" where
  "saveError e s = (case s of None \<Rightarrow> Some e | Some e' \<Rightarrow> Some e')"

definition storeString :: "json \<Rightarrow> string \<Rightarrow> error option \<Rightarrow> string \<times> error option" where
  "storeString v old s = (case v of
       JString x \<Rightarrow> (x, s)
     | JNull \<Rightarrow> (old, s)
     | _ \<Rightarrow> (old, saveError (UnmarshalTypeError ''string'') s))"

definition storeInt :: "json \<Rightarrow> int64 \<Rightarrow> error option \<Rightarrow> int64 \<times> error option" where
  "storeInt v old s = (case v of
       JInt n \<Rightarrow> (if - (2 ^ 63) \<le> n \<and> n < 2 ^ 63 then (word_of_int n, s)
                  else (old, saveError (UnmarshalTypeError ''int'') s))
     | JNegZero \<Rightarrow> (0, s)
     | JNull \<Rightarrow> (old, s)
     | _ \<Rightarrow> (old, saveError (UnmarshalTypeError ''int'') s))"

definition storeUint8 :: "json \<Rightarrow> byte \<Rightarrow> error option \<Rightarrow> byte \<times> error option" where
  "storeUint8 v old s = (case v of
       JInt n \<Rightarrow> (if 0 \<le> n \<and> n < 256 then (word_of_int n, s)
                  else (old, saveError (UnmarshalTypeError ''uint8'') s))
     | JNull \<Rightarrow> (old, s)
     | _ \<Rightarrow> (old, saveError (UnmarshalTypeError ''uint8'') s))"

text \<open>
  A slice is its elements together with its backing array, of which the elements are a
  prefix. The elements of a JSON array are decoded one by one, element \<open>i\<close> into
  position \<open>i\<close> of the backing array: a value that is not stored (\<open>null\<close>, or a value of
  the wrong type) leaves there what an earlier array under a duplicate key stored, or a
  zero where nothing was stored. The slice then has as many elements as the array. An
  empty array gives a new empty slice, and \<open>null\<close> the nil slice, both without backing
  array.
\<close>

fun storeElems :: "json list \<Rightarrow> int64 list \<Rightarrow> error option \<Rightarrow> int64 list \<times> error option" where
  "storeElems [] backing s = ([], s)"
| "storeElems (v # vs) backing s =
     (let (x, s1) = storeInt v (case backing of [] \<Rightarrow> 0 | y # _ \<Rightarrow> y) s;
          (xs, s2) = storeElems vs (tl backing) s1
      in (x # xs, s2))"

definition storeIntSlice ::
  "json \<Rightarrow> int64 list \<times> int64 list \<Rightarrow> error option \<Rightarrow> (int64 list \<times> int64 list) \<times> error option" where
  "storeIntSlice v old s = (case v of
       JArray vs \<Rightarrow>
         (let (xs, s') = storeElems vs (snd old) s
          in ((xs, if vs = [] then [] else xs @ drop (length xs) (snd old)), s'))
     | JNull \<Rightarrow> (([], []), s)
     | _ \<Rightarrow> (old, saveError (UnmarshalTypeError ''[]int'') s))"

definition fieldNames :: "string list" where
  "fieldNames = [''ip'', ''tcpPort'', ''udpPort'', ''serviceId'', ''serviceTcp'', ''serviceUdp'',
     ''price'', ''beneficiaryAddr'']"

text \<open>An object key selects the field of that exact name, else the first field equal to it up to case.\<close>

definition findField :: "'x encoding_json_scheme \<Rightarrow> string \<Rightarrow> string option" where
  "findField lib key =
     (if key \<in> set fieldNames then Some key else find (\<lambda>f. equalFold lib f key) fieldNames)"

text \<open>
  The decoder's state: the record being filled, the first error met, and the backing
  arrays of the record's two slices.
\<close>

record decodeState =
  target :: Metadata
  savedError :: "error option"
  backingTCP :: "int64 list"
  backingUDP :: "int64 list"

definition storeField :: "string \<Rightarrow> json \<Rightarrow> decodeState \<Rightarrow> decodeState" where
  "storeField f v d = (let m = target d; s = savedError d in
     if f = ''ip'' then
       (let (x, s') = storeString v (IP m) s in d\<lparr>target := m\<lparr>IP := x\<rparr>, savedError := s'\<rparr>)
     else if f = ''tcpPort'' then
       (let (x, s') = storeInt v (TCPPort m) s in d\<lparr>target := m\<lparr>TCPPort := x\<rparr>, savedError := s'\<rparr>)
     else if f = ''udpPort'' then
       (let (x, s') = storeInt v (UDPPort m) s in d\<lparr>target := m\<lparr>UDPPort := x\<rparr>, savedError := s'\<rparr>)
     else if f = ''serviceId'' then
       (let (x, s') = storeUint8 v (ServiceId m) s in d\<lparr>target := m\<lparr>ServiceId := x\<rparr>, savedError := s'\<rparr>)
     else if f = ''serviceTcp'' then
       (let ((x, b), s') = storeIntSlice v (ServiceTCP m, backingTCP d) s
        in d\<lparr>target := m\<lparr>ServiceTCP := x\<rparr>, savedError := s', backingTCP := b\<rparr>)
     else if f = ''serviceUdp'' then
       (let ((x, b), s') = storeIntSlice v (ServiceUDP m, backingUDP d) s
        in d\<lparr>target := m\<lparr>ServiceUDP := x\<rparr>, savedError := s', backingUDP := b\<rparr>)
     else if f = ''price'' then
       (let (x, s') = storeString v (Price m) s in d\<lparr>target := m\<lparr>Price := x\<rparr>, savedError := s'\<rparr>)
     else if f = ''beneficiaryAddr'' then
       (let (x, s') = storeString v (BeneficiaryAddr m) s
        in d\<lparr>target := m\<lparr>BeneficiaryAddr := x\<rparr>, savedError := s'\<rparr>)
     else d)"

fun storeObject ::
  "'x encoding_json_scheme \<Rightarrow> (string \<times> json) list \<Rightarrow> decodeState \<Rightarrow> decodeState" where
  "storeObject lib [] d = d"
| "storeObject lib ((k, v) # kvs) d =
     storeObject lib kvs (case findField lib k of None \<Rightarrow> d | Some f \<Rightarrow> storeField f v d)"

text \<open>
  Decoding a document into a record \<open>m\<close> whose slices have no spare capacity: an object
  is stored key by key, \<open>null\<close> stores nothing, any other value is a type error.
\<close>

definition unmarshalMetadata :: "'x encoding_json_scheme \<Rightarrow> json \<Rightarrow> Metadata \<Rightarrow> Metadata \<times> error option" where
  "unmarshalMetadata lib j m = (case j of
       JObject kvs \<Rightarrow>
         (let d = storeObject lib kvs
                \<lparr>target = m, savedError = None, backingTCP = ServiceTCP m, backingUDP = ServiceUDP m\<rparr>
          in (target d, savedError d))
     | JNull \<Rightarrow> (m, None)
     | _ \<Rightarrow> (m, Some (UnmarshalTypeError ''Metadata'')))"

text \<open>
  \<open>json.Unmarshal\<close> of a text into a fresh zero \<open>Metadata\<close>: a text that is not valid
  JSON is rejected before anything is stored.
\<close>

definition Unmarshal :: "'x encoding_json_scheme \<Rightarrow> string \<Rightarrow> Metadata \<times> error option" where
  "Unmarshal lib data = (case scan lib data of
       None \<Rightarrow> (zeroMetadata, Some SyntaxError)
     | Some j \<Rightarrow> unmarshalMetadata lib j zeroMetadata)"

text \<open>
  \<open>ReadMetadata\<close> allocates a new \<open>Metadata\<close> and returns a pointer to it, with the
  decoder's error. The store of allocated records is a list, a pointer is an index into
  it, and a new record goes to the end: its address is the length of the store before.
\<close>

type_synonym store = "Metadata list"

definition ReadMetadata :: "'x encoding_json_scheme \<Rightarrow> string \<Rightarrow> store \<Rightarrow> nat \<times> error option \<times> store" where
  "ReadMetadata lib metadataString h =
     (let (metadata, err) = Unmarshal lib metadataString
      in (length h, err, h @ [metadata]))"

section \<open>Transport handles and the Close helper\<close>

text \<open>
  An \<open>io.Closer\<close> interface value: the nil interface, a nil pointer of some pointer
  type, a pointer to the connection with the given handle, or a value of a type that is
  not a pointer (for which \<open>reflect.Value.IsNil\<close> panics).
\<close>

datatype Closer = UntypedNil | TypedNil | Ptr nat | NonPtr nat

datatype 'a outcome = Returns 'a | Panics

definition IsNil :: "Closer \<Rightarrow> bool outcome" where
  "IsNil conn = (case conn of
       UntypedNil \<Rightarrow> Panics
     | TypedNil \<Rightarrow> Returns True
     | Ptr h \<Rightarrow> Returns False
     | NonPtr h \<Rightarrow> Panics)"

definition handleOf :: "Closer \<Rightarrow> nat" where
  "handleOf conn = (case conn of Ptr h \<Rightarrow> h | NonPtr h \<Rightarrow> h | _ \<Rightarrow> 0)"

text \<open>
  \<open>Close\<close> is given the handle's own \<open>Close\<close> method \<open>meth\<close>, which acts on the
  connections \<open>w\<close> and may return an error. The helper returns the connections and the
  lines it logged; it has no error result.
\<close>

definition Close ::
  "(nat \<Rightarrow> 'w \<Rightarrow> error option \<times> 'w) \<Rightarrow> Closer \<Rightarrow> 'w \<Rightarrow> ('w \<times> string list) outcome" where
  "Close meth conn w =
     (if conn = UntypedNil then Returns (w, [])
      else (case IsNil conn of
          Panics \<Rightarrow> Panics
        | Returns True \<Rightarrow> Returns (w, [])
        | Returns False \<Rightarrow>
            (let (err, w') = meth (handleOf conn) w in
             (case err of
                None \<Rightarrow> Returns (w', [])
              | Some e \<Rightarrow> Returns (w', [''Error while closing:''])))))"

text \<open>
  The \<open>Close\<close> method of a network connection: the first call closes it, a later call
  returns the error "use of closed network connection". The connections are the set of
  handles closed so far.
\<close>

definition connClose :: "nat \<Rightarrow> nat set \<Rightarrow> error option \<times> nat set" where
  "connClose h closed =
     (if h \<in> closed then (Some (ExternalError ''use of closed network connection''), closed)
      else (None, insert h closed))"

section \<open>Session state\<close>

record Service =
  Name :: string
  TCP :: "int64 list"
  UDP :: "int64 list"

record Common =
  Service :: Service
  EntryToExitMaxPrice :: Fixed64
  ExitToEntryMaxPrice :: Fixed64
  DialTimeout :: "16 word"
  SubscriptionPrefix :: string
  Reverse :: bool
  ReverseMetadata :: "nat option"
  EntryToExitPrice :: Fixed64
  ExitToEntryPrice :: Fixed64
  PaymentReceiver :: string
  Metadata :: "nat option"
  connected :: bool
  tcpConn :: Closer
  udpConn :: Closer

datatype event =
    CountQuery string
  | PageQuery string "32 word"
  | Log string
  | Dial string
  | StartPump nat
  | Retry

text \<open>
  The session together with what it points into and acts on: the store of \<open>Metadata\<close>
  records (\<open>Metadata\<close> and \<open>ReverseMetadata\<close> are pointers into it, \<open>None\<close> for nil), the
  handles closed so far, and the trace of the calls made and lines logged.
  \<open>Retry\<close> marks each \<open>continue RandomSubscriber\<close>.
\<close>

record machine = Common +
  store :: store
  closed :: "nat set"
  trace :: "event list"

definition emit :: "event list \<Rightarrow> machine \<Rightarrow> machine" where
  "emit es c = c\<lparr>trace := trace c @ es\<rparr>"

text \<open>Following a pointer; a nil pointer panics.\<close>

definition load :: "store \<Rightarrow> nat option \<Rightarrow> Metadata outcome" where
  "load h p = (case p of
       None \<Rightarrow> Panics
     | Some a \<Rightarrow> (if a < length h then Returns (h ! a) else Panics))"

definition SetMetadata :: "'x encoding_json_scheme \<Rightarrow> string \<Rightarrow> machine \<Rightarrow> bool \<times> machine" where
  "SetMetadata lib metadataString c =
     (let (p, err, h) = ReadMetadata lib metadataString (store c);
          c1 = c\<lparr>Metadata := Some p, store := h\<rparr>
      in (case err of
            Some e \<Rightarrow> (False, emit [Log ''Could not unmarshal metadata:''] c1)
          | None \<Rightarrow> (True, c1)))"

section \<open>External collaborators\<close>

text \<open>
  The functions of the price parser and of the address library that the negotiation
  calls are parameters: \<open>ParsePrice\<close> gives the two prices of a price string,
  and the four steps from a subscriber's address to its wallet address each return a
  value or an error.
\<close>

record extern = encoding_json +
  ParsePrice :: "string \<Rightarrow> error + Fixed64 \<times> Fixed64"
  ParseClientAddress :: "string \<Rightarrow> error + byte list"
  NewPubKeyFromBytes :: "byte list \<Rightarrow> error + byte list"
  CreateProgramHash :: "byte list \<Rightarrow> error + byte list"
  ToAddress :: "byte list \<Rightarrow> error + string"

text \<open>
  What the world answers during one pass of the negotiation loop: the directory's
  subscriber count for a topic, the number \<open>rand.Intn n\<close> returns, the page of
  subscribers at an offset (a map, as the list of its entries in the order the \<open>range\<close>
  loop visits them), and the outcome of dialling a TCP address with a timeout and a UDP
  address (a handle, or an error).
\<close>

record round =
  GetSubscribersCount :: "string \<Rightarrow> error + 32 word"
  Intn :: "nat \<Rightarrow> nat"
  GetSubscribers :: "string \<Rightarrow> 32 word \<Rightarrow> error + (string \<times> string) list"
  netDialTimeout :: "string \<Rightarrow> 16 word \<Rightarrow> error + nat"
  netDialUDP :: "string \<Rightarrow> int64 \<Rightarrow> error + nat"

section \<open>Connection lifecycle\<close>

text \<open>\<open>strconv.Itoa\<close>: the decimal digits of an integer.\<close>

fun digits :: "nat \<Rightarrow> string" where
  "digits n = (if n < 10 then [char_of (48 + n)] else digits (n div 10) @ [char_of (48 + n mod 10)])"

definition Itoa :: "int \<Rightarrow> string" where
  "Itoa i = (if i < 0 then CHR ''-'' # digits (nat (- i)) else digits (nat i))"

definition dialTCP :: "round \<Rightarrow> machine \<Rightarrow> (bool \<times> machine) outcome" where
  "dialTCP w c =
     (case Close connClose (tcpConn c) (closed c) of
        Panics \<Rightarrow> Panics
      | Returns (cl, lg) \<Rightarrow>
          (case load (store c) (Metadata c) of
             Panics \<Rightarrow> Panics
           | Returns md \<Rightarrow>
               (let address = IP md @ '':'' @ Itoa (sint (TCPPort md));
                    c1 = emit (map Log lg @ [Dial address]) (c\<lparr>closed := cl\<rparr>)
                in (case netDialTimeout w address (DialTimeout c) of
                      Inl err \<Rightarrow> Returns (False,
                        emit [Log ''Could not connect to TCP address''] (c1\<lparr>tcpConn := UntypedNil\<rparr>))
                    | Inr h \<Rightarrow> Returns (True,
                        emit [Log ''Connected to TCP at''] (c1\<lparr>tcpConn := Ptr h\<rparr>))))))"

definition dialUDP :: "round \<Rightarrow> machine \<Rightarrow> (bool \<times> machine) outcome" where
  "dialUDP w c =
     (case Close connClose (udpConn c) (closed c) of
        Panics \<Rightarrow> Panics
      | Returns (cl, lg) \<Rightarrow>
          (case load (store c) (Metadata c) of
             Panics \<Rightarrow> Panics
           | Returns md \<Rightarrow>
               (let c1 = emit (map Log lg @ [Dial (IP md)]) (c\<lparr>closed := cl\<rparr>)
                in (case netDialUDP w (IP md) (UDPPort md) of
                      Inl err \<Rightarrow> Returns (False,
                        emit [Log ''Could not connect to UDP address''] (c1\<lparr>udpConn := TypedNil\<rparr>))
                    | Inr h \<Rightarrow> Returns (True,
                        emit [Log ''Connected to UDP at'', StartPump h] (c1\<lparr>udpConn := Ptr h\<rparr>))))))"

text \<open>
  \<open>UpdateServerConn\<close>: the TCP part (\<open>dialTCP\<close>) when the service has TCP ports or the
  session has reverse metadata, then the UDP part (\<open>dialUDP\<close>) likewise; a failed dial
  returns false at once, and \<open>connected\<close> is set only at the end.
\<close>

definition UpdateServerConn :: "round \<Rightarrow> machine \<Rightarrow> (bool \<times> machine) outcome" where
  "UpdateServerConn w c =
     (let hasTCP = (TCP (Service c) \<noteq> []); hasUDP = (UDP (Service c) \<noteq> []) in
      (case (if hasTCP \<or> ReverseMetadata c \<noteq> None then dialTCP w c else Returns (True, c)) of
         Panics \<Rightarrow> Panics
       | Returns (ok1, c1) \<Rightarrow>
           (if \<not> ok1 then Returns (False, c1)
            else (case (if hasUDP \<or> ReverseMetadata c1 \<noteq> None then dialUDP w c1
                        else Returns (True, c1)) of
                Panics \<Rightarrow> Panics
              | Returns (ok2, c2) \<Rightarrow>
                  (if \<not> ok2 then Returns (False, c2)
                   else Returns (True, c2\<lparr>connected := True\<rparr>))))))"

section \<open>Provider selection and price negotiation\<close>

datatype flow = Break | Continue | Return error | Panicked

text \<open>Lines 240 to 262: from the subscriber's address to the address that is paid.\<close>

definition deriveReceiver :: "'x extern_scheme \<Rightarrow> string \<Rightarrow> error + string" where
  "deriveReceiver ext subscriber =
     (case ParseClientAddress ext subscriber of
        Inl err \<Rightarrow> Inl err
      | Inr publicKey \<Rightarrow>
          (case NewPubKeyFromBytes ext publicKey of
             Inl err \<Rightarrow> Inl err
           | Inr pubKey \<Rightarrow>
               (case CreateProgramHash ext pubKey of
                  Inl err \<Rightarrow> Inl err
                | Inr programHash \<Rightarrow> ToAddress ext programHash)))"

text \<open>Lines 285 to 288: the reverse metadata's port lists are written into the chosen record.\<close>

definition copyReversePorts :: "machine \<Rightarrow> machine outcome" where
  "copyReversePorts c = (case ReverseMetadata c of
       None \<Rightarrow> Returns c
     | Some r \<Rightarrow>
         (case (load (store c) (Metadata c), load (store c) (Some r)) of
            (Returns md, Returns rmd) \<Rightarrow>
              Returns (c\<lparr>store := (store c)[the (Metadata c) :=
                         md\<lparr>ServiceTCP := ServiceTCP rmd, ServiceUDP := ServiceUDP rmd\<rparr>]\<rparr>)
          | _ \<Rightarrow> Panics))"

text \<open>
  The body of the \<open>range\<close> loop for one entry of the page. Every path through it ends in
  \<open>continue RandomSubscriber\<close> or \<open>break RandomSubscriber\<close>.
\<close>

definition candidate ::
  "'x extern_scheme \<Rightarrow> round \<Rightarrow> string \<Rightarrow> string \<Rightarrow> machine \<Rightarrow> flow \<times> machine" where
  "candidate ext w subscriber metadataString c =
     (let (ok, c1) = SetMetadata ext metadataString c in
      if \<not> ok then (Continue, c1)
      else (case load (store c1) (Metadata c1) of
          Panics \<Rightarrow> (Panicked, c1)
        | Returns md \<Rightarrow>
            (case (if length (BeneficiaryAddr md) > 0 then Inr (BeneficiaryAddr md)
                   else deriveReceiver ext subscriber) of
               Inl err \<Rightarrow> (Continue, emit [Log ''derive''] c1)
             | Inr receiver \<Rightarrow>
                 (let c2 = c1\<lparr>PaymentReceiver := receiver\<rparr> in
                  (case ParsePrice ext (Price md) of
                     Inl err \<Rightarrow> (Continue, emit [Log ''price''] c2)
                   | Inr (entryToExitPrice, exitToEntryPrice) \<Rightarrow>
                       if EntryToExitMaxPrice c2 <s entryToExitPrice
                       then (Continue, emit [Log ''Entry to exit price is bigger than max allowed price''] c2)
                       else if ExitToEntryMaxPrice c2 <s exitToEntryPrice
                       then (Continue, emit [Log ''Exit to entry price is bigger than max allowed price''] c2)
                       else
                         (let c3 = c2\<lparr>EntryToExitPrice := entryToExitPrice,
                                       ExitToEntryPrice := exitToEntryPrice\<rparr>
                          in (case copyReversePorts c3 of
                                Panics \<Rightarrow> (Panicked, c3)
                              | Returns c4 \<Rightarrow>
                                  (case UpdateServerConn w c4 of
                                     Panics \<Rightarrow> (Panicked, c4)
                                   | Returns (up, c5) \<Rightarrow>
                                       (if \<not> up then (Continue, c5) else (Break, c5))))))))))"

text \<open>One pass of the loop labelled \<open>RandomSubscriber\<close>.\<close>

definition pass :: "'x extern_scheme \<Rightarrow> round \<Rightarrow> string \<Rightarrow> machine \<Rightarrow> flow \<times> machine" where
  "pass ext w topic c =
     (let c0 = emit [CountQuery topic] (c\<lparr>PaymentReceiver := []\<rparr>) in
      (case GetSubscribersCount w topic of
         Inl err \<Rightarrow> (Return err, c0)
       | Inr subscribersCount \<Rightarrow>
           if subscribersCount = 0 then (Return (NoServiceProviders (Name (Service c0))), c0)
           else
             (let offset = (word_of_nat (Intn w (unat subscribersCount)) :: 32 word);
                  c1 = emit [PageQuery topic offset] c0
              in (case GetSubscribers w topic offset of
                    Inl err \<Rightarrow> (Return err, c1)
                  | Inr subscribers \<Rightarrow>
                      (case subscribers of
                         [] \<Rightarrow> (Continue, c1)
                       | (subscriber, metadataString) # rest \<Rightarrow>
                           candidate ext w subscriber metadataString c1)))))"

datatype result = Ok | Failed error | Panic

text \<open>
  The loop runs one pass for each round of answers it is given. With no round left it
  has not returned: the value is \<open>None\<close>.
\<close>

fun RandomSubscriber ::
  "'x extern_scheme \<Rightarrow> string \<Rightarrow> round list \<Rightarrow> machine \<Rightarrow> (result \<times> machine) option" where
  "RandomSubscriber ext topic [] c = None"
| "RandomSubscriber ext topic (w # ws) c =
     (case pass ext w topic c of
        (Break, c') \<Rightarrow> Some (Ok, c')
      | (Return err, c') \<Rightarrow> Some (Failed err, c')
      | (Panicked, c') \<Rightarrow> Some (Panic, c')
      | (Continue, c') \<Rightarrow> RandomSubscriber ext topic ws (emit [Retry] c'))"

definition CreateServerConn ::
  "'x extern_scheme \<Rightarrow> round list \<Rightarrow> bool \<Rightarrow> machine \<Rightarrow> (result \<times> machine) option" where
  "CreateServerConn ext ws force c =
     (if \<not> Reverse c \<and> (connected c = False \<or> force)
      then RandomSubscriber ext (SubscriptionPrefix c @ Name (Service c)) ws c
      else Some (Ok, c))"

section \<open>Publisher\<close>

text \<open>
  A \<open>time.Duration\<close> is a signed 64-bit count of nanoseconds. \<open>config.ConsensusDuration\<close>
  is a parameter.
\<close>

definition Second :: int64 where
  "Second = 1000000000"

text \<open>Lines 371 to 381: the wait chosen after one call of \<open>wallet.Subscribe\<close>.\<close>

definition waitTime :: "int64 \<Rightarrow> 32 word \<Rightarrow> error + string \<Rightarrow> int64" where
  "waitTime ConsensusDuration subscriptionDuration r = (case r of
       Inl err \<Rightarrow> Second
     | Inr txid \<Rightarrow>
         (if 3 < subscriptionDuration then ucast (subscriptionDuration - 3) * ConsensusDuration
          else ConsensusDuration))"

datatype pubevent =
    Subscribe string "32 word" string string
  | Sleep int64

text \<open>
  The republish loop, run on the outcomes of its successive \<open>Subscribe\<close> calls. It
  yields the calls and sleeps it makes, and \<open>None\<close> as its result: the loop has no
  exit, so after any number of outcomes it has not returned.
\<close>

fun republish ::
  "int64 \<Rightarrow> string \<Rightarrow> 32 word \<Rightarrow> string \<Rightarrow> string \<Rightarrow> (error + string) list
     \<Rightarrow> pubevent list \<times> unit option" where
  "republish cd topic subscriptionDuration metadataRaw subscriptionFee [] = ([], None)"
| "republish cd topic subscriptionDuration metadataRaw subscriptionFee (r # rs) =
     (let (evs, res) = republish cd topic subscriptionDuration metadataRaw subscriptionFee rs
      in (Subscribe topic subscriptionDuration metadataRaw subscriptionFee
            # Sleep (waitTime cd subscriptionDuration r) # evs, res))"

definition UpdateMetadata ::
  "'x encoding_json_scheme \<Rightarrow> int64 \<Rightarrow> string \<Rightarrow> byte \<Rightarrow> int64 list \<Rightarrow> int64 list \<Rightarrow> string
     \<Rightarrow> int64 \<Rightarrow> int64 \<Rightarrow> string \<Rightarrow> string \<Rightarrow> string \<Rightarrow> 32 word \<Rightarrow> string
     \<Rightarrow> (error + string) list \<Rightarrow> pubevent list \<times> unit option" where
  "UpdateMetadata lib cd serviceName serviceId serviceTCP serviceUDP ip tcpPort udpPort price
     beneficiaryAddr subscriptionPrefix subscriptionDuration subscriptionFee outcomes =
     republish cd (subscriptionPrefix @ serviceName) subscriptionDuration
       (CreateRawMetadata lib serviceId serviceTCP serviceUDP ip tcpPort udpPort price beneficiaryAddr)
       subscriptionFee outcomes"

section \<open>Relay\<close>

text \<open>
  A source is the list of what its \<open>Read\<close> calls have to give, in order: some bytes and
  possibly an error. A call with a buffer of \<open>n\<close> bytes takes the whole entry when it
  fits; otherwise it takes \<open>n\<close> bytes without error and leaves the rest, with the
  error, for the next call. A source with nothing left to give blocks: \<open>None\<close>.
\<close>

type_synonym Reader = "(byte list \<times> error option) list"

definition Read :: "Reader \<Rightarrow> nat \<Rightarrow> (byte list \<times> error option \<times> Reader) option" where
  "Read src n = (case src of
       [] \<Rightarrow> None
     | (d, e) # rest \<Rightarrow>
         (if length d \<le> n then Some (d, e, rest)
          else Some (take n d, None, (drop n d, e) # rest)))"

text \<open>A destination is a \<open>Write\<close> method on a state: it returns the count written and an error.\<close>

type_synonym 'w Writer = "'w \<Rightarrow> byte list \<Rightarrow> nat \<times> error option \<times> 'w"

definition addWritten :: "64 word option \<Rightarrow> nat \<Rightarrow> 64 word option" where
  "addWritten written nw = (if nw > 0 then (case written of None \<Rightarrow> None | Some n \<Rightarrow> Some (n + word_of_nat nw))
     else written)"

definition pending :: "Reader \<Rightarrow> nat" where
  "pending src = sum_list (map (\<lambda>(d, e). Suc (length d)) src)"

function copyBuffer ::
  "'w Writer \<Rightarrow> 'w \<Rightarrow> Reader \<Rightarrow> 64 word option \<Rightarrow> (error option \<times> 'w \<times> Reader \<times> 64 word option) option" where
  "copyBuffer dest w src written =
     (case Read src 32768 of
        None \<Rightarrow> None
      | Some (buf, err, src') \<Rightarrow>
          (let nr = length buf in
           if nr > 0 then
             (let (nw, werr, w') = dest w buf;
                  written' = addWritten written nw
              in if werr \<noteq> None then Some (werr, w', src', written')
                 else if nr \<noteq> nw then Some (Some ErrShortWrite, w', src', written')
                 else if err \<noteq> None then
                   (if err \<noteq> Some EOF then Some (err, w', src', written')
                    else Some (None, w', src', written'))
                 else copyBuffer dest w' src' written')
           else if err \<noteq> None then
             (if err \<noteq> Some EOF then Some (err, w, src', written)
              else Some (None, w, src', written))
           else copyBuffer dest w src' written))"
  by pat_completeness auto
termination
  by (relation "measure (\<lambda>(dest, w, src, written). pending src)") (auto simp: Read_def pending_def split: list.splits if_splits)

declare copyBuffer.simps [simp del]

section \<open>UDP pumps of a session\<close>

text \<open>
  The goroutines that \<open>StartUDPReaderWriter\<close> starts: at each call one reader and one
  writer for the socket \<open>conn\<close> it is given. All of them use the session's one close
  channel \<open>c.udpCloseChan\<close>, which nothing in \<open>tuna.go\<close> assigns: it is nil, or a
  channel made where the session was built.

  The reader task loops on a read of its socket. A read that fails with "use of closed
  network connection" makes it send one value on the close channel and return; any other
  read lets it loop. So a reader is blocked in the read, or blocked in its send on the
  close channel, or has returned. The writer task loops on a \<open>select\<close> between the write
  channel, whose datagrams it writes to its socket, and the close channel, on which a
  receive makes it return. So a writer is blocked in its \<open>select\<close>, or has returned.
  A send on the close channel completes together with the receive of exactly one of the
  writers that are in their \<open>select\<close>, whichever socket that writer belongs to; on a nil
  channel no send and no receive ever completes.
\<close>

datatype readerTask = Reading | SendingClose | ReaderReturned

datatype writerTask = Selecting | WriterReturned

text \<open>Each task is listed with the socket it was started for.\<close>

record pumps =
  closeChanMade :: bool
  closedSockets :: "nat set"
  readerTasks :: "(nat \<times> readerTask) list"
  writerTasks :: "(nat \<times> writerTask) list"

text \<open>
  What can happen next: a reader or a writer is started for a socket; a socket is closed
  (\<open>Close(c.udpConn)\<close> in \<open>UpdateServerConn\<close>); the read of reader \<open>i\<close> returns (with the
  closed error once its socket is closed); writer \<open>j\<close> receives from the close channel
  the value that reader \<open>i\<close> sends; writer \<open>j\<close> receives a datagram from the write
  channel and writes it. An action that is not possible in a state leaves the state as it
  is, so a list of actions is any interleaving of the session and its tasks.
\<close>

datatype action =
    SpawnReader nat
  | SpawnWriter nat
  | CloseConn nat
  | ReadReturns nat
  | ReceiveClose nat nat
  | WriteDatagram nat

definition step :: "action \<Rightarrow> pumps \<Rightarrow> pumps" where
  "step a s = (case a of
       SpawnReader conn \<Rightarrow> s\<lparr>readerTasks := readerTasks s @ [(conn, Reading)]\<rparr>
     | SpawnWriter conn \<Rightarrow> s\<lparr>writerTasks := writerTasks s @ [(conn, Selecting)]\<rparr>
     | CloseConn conn \<Rightarrow> s\<lparr>closedSockets := insert conn (closedSockets s)\<rparr>
     | ReadReturns i \<Rightarrow>
         (if i < length (readerTasks s) \<and> snd (readerTasks s ! i) = Reading
             \<and> fst (readerTasks s ! i) \<in> closedSockets s
          then s\<lparr>readerTasks := (readerTasks s)[i := (fst (readerTasks s ! i), SendingClose)]\<rparr>
          else s)
     | ReceiveClose i j \<Rightarrow>
         (if closeChanMade s
             \<and> i < length (readerTasks s) \<and> snd (readerTasks s ! i) = SendingClose
             \<and> j < length (writerTasks s) \<and> snd (writerTasks s ! j) = Selecting
          then s\<lparr>readerTasks := (readerTasks s)[i := (fst (readerTasks s ! i), ReaderReturned)],
                 writerTasks := (writerTasks s)[j := (fst (writerTasks s ! j), WriterReturned)]\<rparr>
          else s)
     | WriteDatagram j \<Rightarrow> s)"

text \<open>\<open>StartUDPReaderWriter\<close> starts the reader and then the writer of the socket.\<close>

definition StartUDPReaderWriter :: "nat \<Rightarrow> action list" where
  "StartUDPReaderWriter conn = [SpawnReader conn, SpawnWriter conn]"

text \<open>A session with no socket yet, its close channel made or nil.\<close>

definition startPumps :: "bool \<Rightarrow> pumps" where
  "startPumps made = \<lparr>closeChanMade = made, closedSockets = {}, readerTasks = [], writerTasks = []\<rparr>"

text \<open>
  What two calls of \<open>UpdateServerConn\<close> do for a service with UDP ports, the second a
  forced reconnect: the first dials socket 0 and starts its pumps; the second closes
  socket 0, dials socket 1 and starts its pumps.
\<close>

definition reconnect :: "action list" where
  "reconnect = StartUDPReaderWriter 0 @ [CloseConn 0] @ StartUDPReaderWriter 1"

text \<open>The actions of the tasks themselves, as opposed to those of the session.\<close>

definition taskAction :: "action \<Rightarrow> bool" where
  "taskAction a = (case a of
       ReadReturns i \<Rightarrow> True
     | ReceiveClose i j \<Rightarrow> True
     | WriteDatagram j \<Rightarrow> True
     | _ \<Rightarrow> False)"

definition returnedWriters :: "pumps \<Rightarrow> nat" where
  "returnedWriters s = length (filter (\<lambda>w. snd w = WriterReturned) (writerTasks s))"

text \<open>
  After the reconnect, with the old socket closed and the new one open: the old reader
  has sent its value and returned, the new writer has received it and returned, the old
  writer is still in its \<open>select\<close>, and the new reader reads on.
\<close>

definition stolen :: pumps where
  "stolen = \<lparr>closeChanMade = True, closedSockets = {0},
     readerTasks = [(0, ReaderReturned), (1, Reading)],
     writerTasks = [(0, Selecting), (1, WriterReturned)]\<rparr>"

section \<open>Notions used in the statements and proofs\<close>

text \<open>The number of times the negotiation loop has gone round again.\<close>

definition retries :: "machine \<Rightarrow> nat" where
  "retries c = length (filter (\<lambda>e. e = Retry) (trace c))"

text \<open>A destination that writes all it is given and reports no error.\<close>

definition faithful :: "'w Writer \<Rightarrow> bool" where
  "faithful dest = (\<forall>w p. fst (dest w p) = length p \<and> fst (snd (dest w p)) = None)"

text \<open>
  What \<open>copyBuffer\<close> is to hand to the destination: each entry of the source cut into
  pieces of 32768 bytes (the last piece of an entry may be shorter, and an empty entry
  gives no piece), in order; and the state of a destination after it was given a list of
  buffers one after the other.
\<close>

function chunksOf :: "nat \<Rightarrow> 'a list \<Rightarrow> 'a list list" where
  "chunksOf n xs = (if n = 0 \<or> xs = [] then [] else take n xs # chunksOf n (drop n xs))"
  by pat_completeness auto
termination
  by (relation "measure (\<lambda>(n, xs). length xs)") auto

declare chunksOf.simps [simp del]

definition buffersOf :: "Reader \<Rightarrow> byte list list" where
  "buffersOf src = concat (map (\<lambda>(d, e). chunksOf 32768 d) src)"

definition writes :: "'w Writer \<Rightarrow> 'w \<Rightarrow> byte list list \<Rightarrow> 'w" where
  "writes dest w ps = foldl (\<lambda>w p. snd (snd (dest w p))) w ps"

text \<open>
  A transport handle is nil or a pointer; a pointer into the store is nil or the address
  of an allocated record. A session is well formed when its two transport handles and
  its reverse metadata are so.
\<close>

definition handleOK :: "Closer \<Rightarrow> bool" where
  "handleOK conn = (case conn of NonPtr h \<Rightarrow> False | _ \<Rightarrow> True)"

definition pointerOK :: "store \<Rightarrow> nat option \<Rightarrow> bool" where
  "pointerOK h p = (case p of None \<Rightarrow> True | Some a \<Rightarrow> a < length h)"

definition wellFormed :: "machine \<Rightarrow> bool" where
  "wellFormed c = (handleOK (tcpConn c) \<and> handleOK (udpConn c) \<and> pointerOK (store c) (ReverseMetadata c))"

text \<open>
  What a pass of the negotiation loop leaves as it is: the service, the ceilings, the
  dial timeout, the topic prefix, the reverse flag and metadata, the number of retries
  so far, and the session being well formed.
\<close>

definition frame :: "machine \<Rightarrow> machine \<Rightarrow> bool" where
  "frame c c' =
     (Service c' = Service c \<and> EntryToExitMaxPrice c' = EntryToExitMaxPrice c
      \<and> ExitToEntryMaxPrice c' = ExitToEntryMaxPrice c \<and> DialTimeout c' = DialTimeout c
      \<and> SubscriptionPrefix c' = SubscriptionPrefix c \<and> Reverse c' = Reverse c
      \<and> ReverseMetadata c' = ReverseMetadata c \<and> retries c' = retries c
      \<and> (wellFormed c \<longrightarrow> wellFormed c'))"

text \<open>
  A candidate conforms when its descriptor decodes without error, its payment receiver
  is given or can be derived, and its price parses and is within both ceilings.
\<close>

definition conforming :: "'x extern_scheme \<Rightarrow> Fixed64 \<Rightarrow> Fixed64 \<Rightarrow> string \<times> string \<Rightarrow> bool" where
  "conforming ext maxE2X maxX2E cand =
     (case cand of (subscriber, metadataString) \<Rightarrow>
        (case Unmarshal ext metadataString of
           (md, Some err) \<Rightarrow> False
         | (md, None) \<Rightarrow>
             (BeneficiaryAddr md \<noteq> [] \<or> (case deriveReceiver ext subscriber of Inl e \<Rightarrow> False | Inr a \<Rightarrow> True))
             \<and> (case ParsePrice ext (Price md) of
                   Inl e \<Rightarrow> False
                 | Inr (e2x, x2e) \<Rightarrow> \<not> maxE2X <s e2x \<and> \<not> maxX2E <s x2e)))"

text \<open>The candidate a round hands to the loop: the first entry of the page at the sampled offset.\<close>

definition sampled :: "round \<Rightarrow> string \<Rightarrow> (string \<times> string) option" where
  "sampled w topic = (case GetSubscribersCount w topic of
       Inl e \<Rightarrow> None
     | Inr n \<Rightarrow>
         (if n = 0 then None
          else (case GetSubscribers w topic (word_of_nat (Intn w (unat n))) of
                  Inl e \<Rightarrow> None
                | Inr [] \<Rightarrow> None
                | Inr (cand # rest) \<Rightarrow> Some cand)))"

definition dialsSucceed :: "round \<Rightarrow> bool" where
  "dialsSucceed w = ((\<forall>a t. \<exists>h. netDialTimeout w a t = Inr h) \<and> (\<forall>a p. \<exists>h. netDialUDP w a p = Inr h))"

text \<open>
  A round of a fixed directory \<open>dir\<close> of subscribers: the count is its length, the
  sampler returns \<open>k\<close>, the page at an offset is the entry there, and every dial
  succeeds or every dial fails.
\<close>

definition directoryRound :: "(string \<times> string) list \<Rightarrow> nat \<Rightarrow> bool \<Rightarrow> round" where
  "directoryRound dir k dialOK =
     \<lparr>GetSubscribersCount = (\<lambda>topic. Inr (word_of_nat (length dir))),
      Intn = (\<lambda>n. k),
      GetSubscribers = (\<lambda>topic off. Inr (if unat off < length dir then [dir ! unat off] else [])),
      netDialTimeout = (\<lambda>a t. if dialOK then Inr 1 else Inl (ExternalError ''dial tcp'')),
      netDialUDP = (\<lambda>a p. if dialOK then Inr 2 else Inl (ExternalError ''dial udp''))\<rparr>"

section \<open>A worked scenario\<close>

definition exampleDescriptor :: string where
  \<open>exampleDescriptor =
     ''{"ip":"203.0.113.5","tcpPort":30020,"udpPort":30021,"serviceId":3,"price":"0.001,0.002"}''\<close>

definition exampleMetadata :: Metadata where
  "exampleMetadata = \<lparr>IP = ''203.0.113.5'', TCPPort = 30020, UDPPort = 30021, ServiceId = 3,
     ServiceTCP = [], ServiceUDP = [], Price = ''0.001,0.002'', BeneficiaryAddr = []\<rparr>"

text \<open>
  Collaborators that know this one descriptor and this one price string (prices in units
  of a hundred-millionth), and derive a receiver for every subscriber address but the empty one.
\<close>

definition exampleExtern :: extern where
  "exampleExtern =
     \<lparr>scan = (\<lambda>s. if s = exampleDescriptor then Some (marshalMetadata exampleMetadata) else None),
      render = (\<lambda>j. if j = marshalMetadata exampleMetadata then exampleDescriptor else []),
      equalFold = (\<lambda>a b. a = b),
      ParsePrice = (\<lambda>s. if s = ''0.001,0.002'' then Inr (100000, 200000)
                         else Inl (ExternalError ''invalid price'')),
      ParseClientAddress = (\<lambda>s. if s = [] then Inl (ExternalError ''invalid address'') else Inr [1]),
      NewPubKeyFromBytes = (\<lambda>b. Inr b),
      CreateProgramHash = (\<lambda>b. Inr b),
      ToAddress = (\<lambda>b. Inr ''NKNreceiver'')\<rparr>"

definition exampleCommon :: "Fixed64 \<Rightarrow> Fixed64 \<Rightarrow> machine" where
  "exampleCommon maxE2X maxX2E =
     \<lparr>Service = \<lparr>Name = ''httpproxy'', TCP = [8080], UDP = []\<rparr>,
      EntryToExitMaxPrice = maxE2X, ExitToEntryMaxPrice = maxX2E, DialTimeout = 5,
      SubscriptionPrefix = ''tuna+1.'', Reverse = False, ReverseMetadata = None,
      EntryToExitPrice = 0, ExitToEntryPrice = 0, PaymentReceiver = [], Metadata = None,
      connected = False, tcpConn = UntypedNil, udpConn = TypedNil,
      store = [], closed = {}, trace = []\<rparr>"

text \<open>A directory of two subscribers: the first publishes text that is not JSON, the second the descriptor above.\<close>

definition exampleDirectory :: "(string \<times> string) list" where
  "exampleDirectory = [(''alice'', ''not json''), (''bob'', exampleDescriptor)]"

text \<open>
  A session for a service with UDP ports only, and the sockets for which a trace shows
  \<open>StartUDPReaderWriter\<close> to have been called.
\<close>

definition exampleUDPCommon :: machine where
  "exampleUDPCommon = (exampleCommon 1000000 1000000)\<lparr>Service := \<lparr>Name = ''dns'', TCP = [], UDP = [53]\<rparr>\<rparr>"

definition startPumpEvents :: "event list \<Rightarrow> nat list" where
  "startPumpEvents es = concat (map (\<lambda>e. case e of StartPump h \<Rightarrow> [h] | _ \<Rightarrow> []) es)"

section \<open>Properties of the metadata codec\<close>

lemma storeElems_sint: "storeElems (map (\<lambda>x. JInt (sint x)) xs) [] s = (xs, s)"
proof (induction xs arbitrary: s)
  case Nil
  show ?case by simp
next
  case (Cons x xs)
  have "- (2 ^ 63) \<le> sint x" "sint x < 2 ^ 63"
    using sint_ge [of x] sint_lt [of x] by simp_all
  then show ?case using Cons by (simp add: storeInt_def)
qed

lemma unmarshal_marshal: "unmarshalMetadata lib (marshalMetadata m) zeroMetadata = (m, None)"
proof -
  have a: "- (2 ^ 63) \<le> sint (TCPPort m)" "sint (TCPPort m) < 2 ^ 63"
          "- (2 ^ 63) \<le> sint (UDPPort m)" "sint (UDPPort m) < 2 ^ 63"
    using sint_ge [of "TCPPort m"] sint_lt [of "TCPPort m"]
          sint_ge [of "UDPPort m"] sint_lt [of "UDPPort m"] by simp_all
  have b: "uint (ServiceId m) < 256"
    using uint_lt2p [of "ServiceId m"] by simp
  show ?thesis
    using a b
    by (cases m)
       (simp add: unmarshalMetadata_def marshalMetadata_def findField_def fieldNames_def
          storeField_def storeString_def storeInt_def storeUint8_def storeIntSlice_def
          zeroMetadata_def storeElems_sint Let_def)
qed

lemma Unmarshal_example: "Unmarshal exampleExtern exampleDescriptor = (exampleMetadata, None)"
  by (simp add: Unmarshal_def exampleExtern_def unmarshal_marshal)

lemma Unmarshal_not_json: "Unmarshal exampleExtern ''not json'' = (zeroMetadata, Some SyntaxError)"
  by (simp add: Unmarshal_def exampleExtern_def exampleDescriptor_def)

text \<open>
  C2. Decoding with \<open>ReadMetadata\<close> the bytes that \<open>CreateRawMetadata\<close> produced from any
  fields gives no error and a new record equal to the one built from those fields,
  whenever the JSON reader reads back the document that the JSON writer wrote. An
  optional field that is empty is left out of the document, and the decoded record has
  the zero value there, which is the empty value that was encoded.
\<close>

theorem metadata_round_trip:
  assumes "m = \<lparr>IP = ip, TCPPort = tcpPort, UDPPort = udpPort, ServiceId = serviceId,
                 ServiceTCP = serviceTCP, ServiceUDP = serviceUDP, Price = price,
                 BeneficiaryAddr = beneficiaryAddr\<rparr>"
    and "scan lib (render lib (marshalMetadata m)) = Some (marshalMetadata m)"
  shows "ReadMetadata lib
           (CreateRawMetadata lib serviceId serviceTCP serviceUDP ip tcpPort udpPort price beneficiaryAddr) h
         = (length h, None, h @ [m])"
  using assms by (simp add: ReadMetadata_def CreateRawMetadata_def Unmarshal_def unmarshal_marshal)

theorem metadata_round_trip_witness:
  "scan exampleExtern (render exampleExtern (marshalMetadata exampleMetadata))
     = Some (marshalMetadata exampleMetadata)
   \<and> ReadMetadata exampleExtern
        (CreateRawMetadata exampleExtern 3 [] [] ''203.0.113.5'' 30020 30021 ''0.001,0.002'' []) []
      = (0, None, [exampleMetadata])"
proof -
  have h: "scan exampleExtern (render exampleExtern (marshalMetadata exampleMetadata))
             = Some (marshalMetadata exampleMetadata)"
    by (simp add: exampleExtern_def)
  show ?thesis
    using h metadata_round_trip [OF _ h,
        of "''203.0.113.5''" 30020 30021 3 "[]" "[]" "''0.001,0.002''" "[]" "[]"]
    by (simp add: exampleMetadata_def)
qed

text \<open>
  C10. \<open>SetMetadata\<close> returns true exactly when the decoder reports no error, and in
  either case the session's \<open>Metadata\<close> is set to the newly allocated record that
  \<open>ReadMetadata\<close> returned, holding whatever the decoder stored: for a session whose
  \<open>Metadata\<close> was nil or a pointer to an allocated record, the pointer afterwards is
  never the one before.
\<close>

theorem SetMetadata_overwrites:
  assumes "pointerOK (store c) (Metadata c)"
  shows "fst (SetMetadata lib s c) = (snd (Unmarshal lib s) = None)
       \<and> Metadata (snd (SetMetadata lib s c)) = Some (length (store c))
       \<and> store (snd (SetMetadata lib s c)) = store c @ [fst (Unmarshal lib s)]
       \<and> Metadata (snd (SetMetadata lib s c)) \<noteq> Metadata c"
  using assms
  by (auto simp: SetMetadata_def ReadMetadata_def emit_def Let_def pointerOK_def
      split: prod.splits option.splits)

theorem SetMetadata_overwrites_witness:
  "pointerOK (store (snd (SetMetadata exampleExtern exampleDescriptor (exampleCommon 0 0))))
     (Metadata (snd (SetMetadata exampleExtern exampleDescriptor (exampleCommon 0 0))))
   \<and> fst (SetMetadata exampleExtern ''not json''
         (snd (SetMetadata exampleExtern exampleDescriptor (exampleCommon 0 0)))) = False
   \<and> Metadata (snd (SetMetadata exampleExtern ''not json''
         (snd (SetMetadata exampleExtern exampleDescriptor (exampleCommon 0 0))))) = Some 1
   \<and> store (snd (SetMetadata exampleExtern ''not json''
         (snd (SetMetadata exampleExtern exampleDescriptor (exampleCommon 0 0)))))
       = [exampleMetadata, zeroMetadata]"
proof -
  let ?c = "snd (SetMetadata exampleExtern exampleDescriptor (exampleCommon 0 0))"
  have c: "Metadata ?c = Some 0" "store ?c = [exampleMetadata]"
    by (simp_all add: SetMetadata_def ReadMetadata_def Unmarshal_example exampleCommon_def Let_def)
  have h: "pointerOK (store ?c) (Metadata ?c)"
    by (simp add: c pointerOK_def)
  show ?thesis
    using h SetMetadata_overwrites [OF h, of exampleExtern "''not json''"]
    by (simp add: Unmarshal_not_json c)
qed

section \<open>Properties of the Close helper\<close>

text \<open>
  C8. For every handle that is the nil interface, a nil pointer or a pointer to a
  connection, \<open>Close\<close> returns and does not panic, whatever the handle's own \<open>Close\<close>
  method answers: on a nil handle it does nothing, and an error of the method (as on a
  connection already closed) only adds a line to the log. The helper has no error result.
\<close>

theorem Close_never_panics:
  assumes "handleOK conn"
  shows "Close meth conn w \<noteq> Panics
       \<and> (conn = UntypedNil \<or> conn = TypedNil \<longrightarrow> Close meth conn w = Returns (w, []))
       \<and> (\<forall>h w'. conn = Ptr h \<and> meth h w = (None, w') \<longrightarrow> Close meth conn w = Returns (w', []))
       \<and> (\<forall>h e w'. conn = Ptr h \<and> meth h w = (Some e, w')
            \<longrightarrow> Close meth conn w = Returns (w', [''Error while closing:'']))"
  using assms
  by (cases conn)
     (auto simp: Close_def IsNil_def handleOf_def handleOK_def split: prod.splits option.splits)

theorem Close_never_panics_witness:
  "handleOK (Ptr 7)
   \<and> Close connClose (Ptr 7) {} = Returns ({7}, [])
   \<and> Close connClose (Ptr 7) {7} = Returns ({7}, [''Error while closing:''])"
proof -
  have h: "handleOK (Ptr 7)"
    by (simp add: handleOK_def)
  show ?thesis
    using h Close_never_panics [OF h, of connClose "{}"] Close_never_panics [OF h, of connClose "{7}"]
    by (simp add: connClose_def)
qed

section \<open>Properties of the publisher\<close>

lemma ucast_minus_3:
  assumes "3 < unat d"
  shows "(ucast ((d :: 32 word) - 3) :: 64 word) = word_of_nat (unat d - 3)"
proof -
  from assms have b: "unat (d - 3) = unat d - 3"
    by (simp add: unat_sub word_le_nat_alt)
  have "(ucast (d - 3) :: 64 word) = word_of_nat (unat (d - 3))"
    by simp
  then show ?thesis by (simp only: b)
qed

lemma waitTime_ok: "waitTime cd d (Inr txid) = word_of_nat (max (unat d - 3) 1) * cd"
proof (cases "3 < d")
  case True
  then have a: "3 < unat d" by (simp add: word_less_nat_alt)
  then have m: "max (unat d - 3) 1 = unat d - 3" by simp
  show ?thesis
    unfolding m using True by (simp only: waitTime_def sum.case if_True ucast_minus_3 [OF a])
next
  case False
  then have "unat d \<le> 3" by (simp add: word_less_nat_alt)
  then have m: "max (unat d - 3) 1 = 1" by simp
  show ?thesis
    unfolding m using False by (simp add: waitTime_def)
qed

lemma republish_never_returns: "snd (republish cd topic d raw fee rs) = None"
  by (induction rs) (auto split: prod.splits)

lemma republish_sleeps:
  "fst (republish cd topic d raw fee rs)
     = concat (map (\<lambda>r. [Subscribe topic d raw fee, Sleep (waitTime cd d r)]) rs)"
  by (induction rs) (auto split: prod.splits)

lemma sint_word_of_int_small:
  "- (2 ^ 63) \<le> k \<Longrightarrow> k < 2 ^ 63 \<Longrightarrow> sint (word_of_int k :: 64 word) = k"
  by (simp add: sint_sbintrunc' signed_take_bit_int_eq_self_iff)

lemma sint_mult_small:
  fixes cd :: "64 word"
  assumes "0 \<le> sint cd" "int n * sint cd < 2 ^ 63"
  shows "sint (word_of_nat n * cd) = int n * sint cd"
proof -
  have e: "word_of_nat n * cd = (word_of_int (int n * sint cd) :: 64 word)"
    by simp
  have "0 \<le> int n * sint cd"
    using assms by simp
  then have "- (2 ^ 63) \<le> int n * sint cd"
    by (rule order_trans [rotated]) simp
  then show ?thesis
    unfolding e using assms(2) by (rule sint_word_of_int_small)
qed

text \<open>
  C6. After a successful \<open>Subscribe\<close> the republish loop sleeps
  \<open>max (subscriptionDuration - 3) 1\<close> times the consensus duration: as \<open>time.Duration\<close>
  computes the product, in 64 bits, and exactly that many nanoseconds whenever the product
  fits a \<open>time.Duration\<close>. After a failed \<open>Subscribe\<close> it sleeps one second. Every
  iteration is one \<open>Subscribe\<close> followed by one sleep, and the loop never returns.
\<close>

theorem republish_schedule:
  "waitTime cd d (Inr txid) = word_of_nat (max (unat d - 3) 1) * cd
   \<and> (0 \<le> sint cd \<and> int (max (unat d - 3) 1) * sint cd < 2 ^ 63
        \<longrightarrow> sint (waitTime cd d (Inr txid)) = int (max (unat d - 3) 1) * sint cd)
   \<and> waitTime cd d (Inl err) = Second
   \<and> fst (republish cd topic d raw fee rs)
       = concat (map (\<lambda>r. [Subscribe topic d raw fee, Sleep (waitTime cd d r)]) rs)
   \<and> snd (republish cd topic d raw fee rs) = None"
proof -
  have 1: "waitTime cd d (Inr txid) = word_of_nat (max (unat d - 3) 1) * cd"
    by (rule waitTime_ok)
  have 2: "0 \<le> sint cd \<and> int (max (unat d - 3) 1) * sint cd < 2 ^ 63
        \<longrightarrow> sint (waitTime cd d (Inr txid)) = int (max (unat d - 3) 1) * sint cd"
    unfolding 1 using sint_mult_small [of cd "max (unat d - 3) 1"] by blast
  have 3: "waitTime cd d (Inl err) = Second"
    by (simp add: waitTime_def)
  show ?thesis
    using 1 2 3 republish_never_returns [of cd topic d raw fee rs]
      republish_sleeps [of cd topic d raw fee rs]
    by blast
qed

theorem republish_schedule_witness:
  "(0 \<le> sint (20 * Second) \<and> int (max (unat (100 :: 32 word) - 3) 1) * sint (20 * Second) < 2 ^ 63)
   \<and> sint (waitTime (20 * Second) 100 (Inr ''txid'')) = 1940000000000
   \<and> republish (20 * Second) ''tuna+1.reverse'' 100 ''{}'' ''0'' [Inl (ExternalError ''rpc''), Inr ''txid'']
       = ([Subscribe ''tuna+1.reverse'' 100 ''{}'' ''0'', Sleep 1000000000,
           Subscribe ''tuna+1.reverse'' 100 ''{}'' ''0'', Sleep 1940000000000], None)"
proof -
  have h: "0 \<le> sint (20 * Second) \<and> int (max (unat (100 :: 32 word) - 3) 1) * sint (20 * Second) < 2 ^ 63"
    by (simp add: Second_def)
  have s: "sint (20 * Second) = 20000000000" by (simp add: Second_def)
  show ?thesis
    using h republish_schedule [of "20 * Second" 100 "''txid''" "ExternalError ''rpc''" "''tuna+1.reverse''" "''{}''" "''0''"
       "[Inl (ExternalError ''rpc''), Inr ''txid'']"]
    by (simp add: s prod_eq_iff Second_def)
qed

section \<open>Properties of the negotiation: directory answers\<close>

text \<open>
  C4. When the directory reports a subscriber count of zero, the pass of the loop that
  asked returns the no-service-providers error at once, at whatever point of the
  negotiation it happens; so \<open>CreateServerConn\<close>, when it negotiates at all, returns
  that error after its first pass. The only call made is the count query: no page of
  subscribers is fetched, nothing is retried, and no provider is committed (the session
  changes only in its cleared payment receiver).
\<close>

theorem no_providers:
  assumes "GetSubscribersCount w topic = Inr 0"
  shows "RandomSubscriber ext topic (w # ws) c
           = Some (Failed (NoServiceProviders (Name (Service c))),
                   emit [CountQuery topic] (c\<lparr>PaymentReceiver := []\<rparr>))
       \<and> (\<not> Reverse c \<and> (\<not> connected c \<or> force) \<and> topic = SubscriptionPrefix c @ Name (Service c)
            \<longrightarrow> CreateServerConn ext (w # ws) force c
                  = Some (Failed (NoServiceProviders (Name (Service c))),
                          emit [CountQuery topic] (c\<lparr>PaymentReceiver := []\<rparr>)))"
  using assms by (auto simp: CreateServerConn_def pass_def emit_def Let_def)

theorem no_providers_witness:
  "GetSubscribersCount (directoryRound [] 0 True) ''tuna+1.httpproxy'' = Inr 0
   \<and> \<not> Reverse (exampleCommon 1000000 1000000)
   \<and> CreateServerConn exampleExtern [directoryRound [] 0 True] False (exampleCommon 1000000 1000000)
       = Some (Failed (NoServiceProviders ''httpproxy''),
               emit [CountQuery ''tuna+1.httpproxy''] (exampleCommon 1000000 1000000))"
proof -
  have h: "GetSubscribersCount (directoryRound [] 0 True) ''tuna+1.httpproxy'' = Inr 0"
    by (simp add: directoryRound_def)
  show ?thesis
    using h no_providers [OF h, of exampleExtern "[]" "exampleCommon 1000000 1000000" False]
    by (simp add: exampleCommon_def)
qed

text \<open>
  C5. The claim that directory errors are never returned fails: a subscriber-count query
  that fails makes \<open>CreateServerConn\<close> return that very error, although a second round
  with a conforming candidate was there to be tried.
\<close>

theorem directory_error_counterexample:
  "CreateServerConn exampleExtern
     [(directoryRound exampleDirectory 1 True)
        \<lparr>GetSubscribersCount := (\<lambda>topic. Inl (ExternalError ''directory unreachable''))\<rparr>,
      directoryRound exampleDirectory 1 True]
     False (exampleCommon 1000000 1000000)
   = Some (Failed (ExternalError ''directory unreachable''),
           emit [CountQuery ''tuna+1.httpproxy''] (exampleCommon 1000000 1000000))"
  by (simp add: CreateServerConn_def pass_def emit_def Let_def exampleCommon_def directoryRound_def)

text \<open>
  C5, as amended. A failed subscriber-count query, and likewise a failed subscriber-list
  query, ends the negotiation loop at once: \<open>CreateServerConn\<close> returns that error to
  its caller, logs nothing and does not sample again.
\<close>

theorem directory_errors_returned:
  assumes "\<not> Reverse c" and "\<not> connected c \<or> force"
    and "topic = SubscriptionPrefix c @ Name (Service c)"
  shows "(GetSubscribersCount w topic = Inl err
            \<longrightarrow> CreateServerConn ext (w # ws) force c
                  = Some (Failed err, emit [CountQuery topic] (c\<lparr>PaymentReceiver := []\<rparr>)))
       \<and> (GetSubscribersCount w topic = Inr n \<and> n \<noteq> 0
            \<and> GetSubscribers w topic (word_of_nat (Intn w (unat n))) = Inl err
            \<longrightarrow> CreateServerConn ext (w # ws) force c
                  = Some (Failed err,
                          emit [CountQuery topic, PageQuery topic (word_of_nat (Intn w (unat n)))]
                            (c\<lparr>PaymentReceiver := []\<rparr>)))"
  using assms by (auto simp: CreateServerConn_def pass_def emit_def Let_def)

theorem directory_errors_returned_witness:
  "\<not> Reverse (exampleCommon 1000000 1000000)
   \<and> \<not> connected (exampleCommon 1000000 1000000)
   \<and> ''tuna+1.httpproxy'' = SubscriptionPrefix (exampleCommon 1000000 1000000)
        @ Name (Service (exampleCommon 1000000 1000000))
   \<and> GetSubscribersCount (directoryRound exampleDirectory 1 True) ''tuna+1.httpproxy'' = Inr 2
   \<and> CreateServerConn exampleExtern
       [(directoryRound exampleDirectory 1 True)
          \<lparr>GetSubscribers := (\<lambda>topic off. Inl (ExternalError ''directory unreachable''))\<rparr>]
       False (exampleCommon 1000000 1000000)
     = Some (Failed (ExternalError ''directory unreachable''),
             emit [CountQuery ''tuna+1.httpproxy'', PageQuery ''tuna+1.httpproxy'' 1]
               (exampleCommon 1000000 1000000))"
proof -
  let ?c = "exampleCommon 1000000 1000000"
  let ?w = "(directoryRound exampleDirectory 1 True)
          \<lparr>GetSubscribers := (\<lambda>topic off. Inl (ExternalError ''directory unreachable''))\<rparr>"
  have h1: "\<not> Reverse ?c" and h2: "\<not> connected ?c \<or> False"
    and h3: "''tuna+1.httpproxy'' = SubscriptionPrefix ?c @ Name (Service ?c)"
    by (simp_all add: exampleCommon_def)
  have h4: "GetSubscribersCount ?w ''tuna+1.httpproxy'' = Inr 2"
       "GetSubscribersCount (directoryRound exampleDirectory 1 True) ''tuna+1.httpproxy'' = Inr 2"
    by (simp_all add: directoryRound_def exampleDirectory_def)
  have h5: "GetSubscribers ?w ''tuna+1.httpproxy'' (word_of_nat (Intn ?w (unat (2 :: 32 word))))
              = Inl (ExternalError ''directory unreachable'')"
       "Intn ?w (unat (2 :: 32 word)) = 1"
    by (simp_all add: directoryRound_def)
  show ?thesis
    using h1 h2 h3 h4 h5
      directory_errors_returned [OF h1 h2 h3, of ?w "ExternalError ''directory unreachable''" exampleExtern "[]" 2]
    by (simp add: exampleCommon_def)
qed

section \<open>Properties of the relay\<close>

lemma chunksOf_Nil: "chunksOf n [] = []"
  by (simp add: chunksOf.simps)

lemma chunksOf_small: "xs \<noteq> [] \<Longrightarrow> length xs \<le> n \<Longrightarrow> chunksOf n xs = [xs]"
  by (subst chunksOf.simps) (cases xs; auto simp: chunksOf_Nil)

lemma chunksOf_large: "0 < n \<Longrightarrow> n < length xs \<Longrightarrow> chunksOf n xs = take n xs # chunksOf n (drop n xs)"
  by (subst chunksOf.simps) auto

lemma concat_chunksOf: "0 < n \<Longrightarrow> concat (chunksOf n xs) = xs"
proof (induction n xs rule: chunksOf.induct)
  case (1 n xs)
  then show ?case by (subst chunksOf.simps) auto
qed

lemma length_chunksOf: "p \<in> set (chunksOf n xs) \<Longrightarrow> 0 < length p \<and> length p \<le> n"
proof (induction n xs rule: chunksOf.induct)
  case (1 n xs)
  from "1.prems" have ne: "n \<noteq> 0" "xs \<noteq> []"
    by (auto simp: chunksOf.simps [of n xs] split: if_splits)
  with "1.prems" have "p = take n xs \<or> p \<in> set (chunksOf n (drop n xs))"
    by (auto simp: chunksOf.simps [of n xs])
  then show ?case
  proof
    assume "p = take n xs"
    with ne show ?thesis by (cases xs) auto
  next
    assume "p \<in> set (chunksOf n (drop n xs))"
    with "1.IH" ne show ?thesis by simp
  qed
qed

lemma faithful_write:
  assumes "faithful dest"
  obtains w' where "dest w p = (length p, None, w')" and "writes dest w [p] = w'"
proof -
  obtain a b c where d: "dest w p = (a, b, c)" by (cases "dest w p") auto
  with assms have "a = length p" "b = None"
    unfolding faithful_def by (metis fst_conv snd_conv)+
  with d that [of c] show ?thesis by (simp add: writes_def)
qed

lemma copyBuffer_last:
  assumes "faithful dest"
  shows "copyBuffer dest w ((d, Some EOF) # rest) (Some n)
           = Some (None, writes dest w (chunksOf 32768 d), rest, Some (n + word_of_nat (length d)))"
proof (induction "length d" arbitrary: d w n rule: less_induct)
  case less
  show ?case
  proof (cases "length d \<le> 32768")
    case True
    show ?thesis
    proof (cases "d = []")
      case True
      then show ?thesis
        by (subst copyBuffer.simps) (simp add: Read_def chunksOf_Nil writes_def)
    next
      case False
      obtain w1 where "dest w d = (length d, None, w1)" "writes dest w [d] = w1"
        by (rule faithful_write [OF assms])
      with True False show ?thesis
        by (subst copyBuffer.simps) (simp add: Read_def addWritten_def chunksOf_small)
    qed
  next
    case False
    let ?a = "take 32768 d" and ?b = "drop 32768 d"
    obtain w1 where dw: "dest w ?a = (length ?a, None, w1)" and ww: "writes dest w [?a] = w1"
      by (rule faithful_write [OF assms])
    from False have la: "length ?a = 32768" and ne: "d \<noteq> []" by auto
    from False have "length ?b < length d" by simp
    from less [OF this, of w1 "n + 32768"]
    have ih: "copyBuffer dest w1 ((?b, Some EOF) # rest) (Some (n + 32768))
             = Some (None, writes dest w1 (chunksOf 32768 ?b), rest,
                     Some (n + 32768 + word_of_nat (length ?b)))" .
    have "(32768 :: 64 word) + word_of_nat (length d - 32768) = word_of_nat (length d)"
      using False by (metis (no_types, lifting) add_diff_inverse_nat linorder_not_le nat_less_le of_nat_add of_nat_numeral)
    then have e: "n + 32768 + word_of_nat (length ?b) = n + word_of_nat (length d)"
      by (simp add: add.assoc)
    have c: "chunksOf 32768 d = ?a # chunksOf 32768 ?b"
      using False by (intro chunksOf_large) simp_all
    have "copyBuffer dest w ((d, Some EOF) # rest) (Some n)
            = copyBuffer dest w1 ((?b, Some EOF) # rest) (Some (n + 32768))"
      using False dw la ne by (subst copyBuffer.simps) (simp add: Read_def addWritten_def)
    with ih e c ww show ?thesis by (simp add: writes_def add.assoc)
  qed
qed

lemma copyBuffer_more:
  assumes "faithful dest"
  shows "copyBuffer dest w ((d, None) # src) (Some n)
           = copyBuffer dest (writes dest w (chunksOf 32768 d)) src (Some (n + word_of_nat (length d)))"
proof (induction "length d" arbitrary: d w n rule: less_induct)
  case less
  show ?case
  proof (cases "length d \<le> 32768")
    case True
    show ?thesis
    proof (cases "d = []")
      case True
      then show ?thesis
        by (subst copyBuffer.simps) (simp add: Read_def chunksOf_Nil writes_def)
    next
      case False
      obtain w1 where "dest w d = (length d, None, w1)" "writes dest w [d] = w1"
        by (rule faithful_write [OF assms])
      with True False show ?thesis
        by (subst copyBuffer.simps) (simp add: Read_def addWritten_def chunksOf_small)
    qed
  next
    case False
    let ?a = "take 32768 d" and ?b = "drop 32768 d"
    obtain w1 where dw: "dest w ?a = (length ?a, None, w1)" and ww: "writes dest w [?a] = w1"
      by (rule faithful_write [OF assms])
    from False have la: "length ?a = 32768" and ne: "d \<noteq> []" by auto
    from False have "length ?b < length d" by simp
    from less [OF this, of w1 "n + 32768"]
    have ih: "copyBuffer dest w1 ((?b, None) # src) (Some (n + 32768))
             = copyBuffer dest (writes dest w1 (chunksOf 32768 ?b)) src
                 (Some (n + 32768 + word_of_nat (length ?b)))" .
    have "(32768 :: 64 word) + word_of_nat (length d - 32768) = word_of_nat (length d)"
      using False by (metis (no_types, lifting) add_diff_inverse_nat linorder_not_le nat_less_le of_nat_add of_nat_numeral)
    then have e: "n + 32768 + word_of_nat (length ?b) = n + word_of_nat (length d)"
      by (simp add: add.assoc)
    have c: "chunksOf 32768 d = ?a # chunksOf 32768 ?b"
      using False by (intro chunksOf_large) simp_all
    have "copyBuffer dest w ((d, None) # src) (Some n)
            = copyBuffer dest w1 ((?b, None) # src) (Some (n + 32768))"
      using False dw la ne by (subst copyBuffer.simps) (simp add: Read_def addWritten_def)
    with ih e c ww show ?thesis by (simp add: writes_def add.assoc)
  qed
qed

lemma copyBuffer_all:
  assumes "faithful dest" and "\<forall>x \<in> set body. snd x = None"
  shows "copyBuffer dest w (body @ (d, Some EOF) # rest) (Some n)
           = Some (None, writes dest w (buffersOf (body @ [(d, Some EOF)])), rest,
                   Some (n + word_of_nat (length (concat (map fst body)) + length d)))"
  using assms(2)
proof (induction body arbitrary: w n)
  case Nil
  then show ?case using copyBuffer_last [OF assms(1)] by (simp add: buffersOf_def)
next
  case (Cons x body)
  obtain a where x: "x = (a, None)" using Cons.prems by (cases x) auto
  from Cons.prems have "\<forall>x \<in> set body. snd x = None" by simp
  from Cons.IH [OF this, of "writes dest w (chunksOf 32768 a)" "n + word_of_nat (length a)"]
  show ?case
    using copyBuffer_more [OF assms(1), of w a "body @ (d, Some EOF) # rest" n] x
    by (simp add: buffersOf_def writes_def add.assoc)
qed

lemma concat_buffersOf: "concat (buffersOf src) = concat (map fst src)"
  by (induction src) (auto simp: buffersOf_def concat_chunksOf)

lemma length_buffersOf: "p \<in> set (buffersOf src) \<Longrightarrow> 0 < length p \<and> length p \<le> 32768"
  by (auto simp: buffersOf_def dest: length_chunksOf)

lemma copyBuffer_example:
  "copyBuffer (\<lambda>w p. (length p, None, w @ [length p])) []
     [(replicate 40000 1, None), ([2, 3], Some EOF)] (Some 10)
   = Some (None, [32768, 7232, 2], [], Some 40012)"
  by (simp add: copyBuffer.simps Read_def addWritten_def)

lemma copyBuffer_short_write:
  "copyBuffer (\<lambda>w p. (length p - 1, None, w @ [length p])) []
     [(replicate 40000 1, None), ([2, 3], Some EOF)] (Some 10)
   = Some (Some ErrShortWrite, [32768], [(replicate 7232 1, None), ([2, 3], Some EOF)], Some 32777)"
  by (simp add: copyBuffer.simps Read_def addWritten_def)

text \<open>
  C7. A source gives any number of payloads without error and then a last one (possibly
  empty) together with end-of-input; the destination writes all it is given without
  error. Then \<open>copyBuffer\<close> returns no error; the byte counter has grown by exactly
  the total size of the payloads (as a 64-bit unsigned counter adds); and the destination
  is in the state that writing the payloads to it leaves, piece by piece: the pieces are
  the payloads in order, each of at least one and at most 32768 bytes, the size of the
  intermediate buffer.
\<close>

theorem copyBuffer_accounting:
  assumes "faithful dest" and "\<forall>x \<in> set body. snd x = None"
  shows "copyBuffer dest w (body @ (d, Some EOF) # rest) (Some n)
           = Some (None, writes dest w (buffersOf (body @ [(d, Some EOF)])), rest,
                   Some (n + word_of_nat (length (concat (map fst body)) + length d)))
       \<and> concat (buffersOf (body @ [(d, Some EOF)])) = concat (map fst body) @ d
       \<and> (\<forall>p \<in> set (buffersOf (body @ [(d, Some EOF)])). 0 < length p \<and> length p \<le> 32768)"
  using copyBuffer_all [OF assms] length_buffersOf [of _ "body @ [(d, Some EOF)]"]
  by (simp add: concat_buffersOf)

theorem copyBuffer_accounting_witness:
  "faithful (\<lambda>w p. (length p, None, w @ [length p]))
   \<and> snd (replicate 40000 (1 :: byte), None :: error option) = None
   \<and> copyBuffer (\<lambda>w p. (length p, None, w @ [length p])) []
        ([(replicate 40000 1, None)] @ ([2, 3], Some EOF) # []) (Some 10)
      = Some (None, [32768, 7232, 2], [], Some 40012)
   \<and> writes (\<lambda>w p. (length p, None :: error option, w @ [length p])) []
        (buffersOf ([(replicate 40000 1, None)] @ [([2, 3], Some EOF)])) = [32768, 7232, 2]"
proof -
  have h1: "faithful (\<lambda>w p. (length p, None :: error option, w @ [length p]))"
    by (simp add: faithful_def)
  have h2: "\<forall>x \<in> set [(replicate 40000 (1 :: byte), None :: error option)]. snd x = None"
    by simp
  show ?thesis
    using h1 h2 copyBuffer_accounting [OF h1 h2, of "[]" "[2, 3]" "[]" 10] copyBuffer_example
    by simp
qed

section \<open>Properties of the negotiation: one candidate\<close>

lemma frame_refl: "frame c c"
  by (simp add: frame_def)

lemma frame_trans: "frame a b \<Longrightarrow> frame b c \<Longrightarrow> frame a c"
  by (simp add: frame_def)

lemma no_Retry_in_Log: "filter (\<lambda>e. e = Retry) (map Log xs) = []"
  by (induction xs) simp_all

lemma Close_connClose:
  "handleOK conn \<Longrightarrow> \<exists>cl lg. Close connClose conn w = Returns (cl, lg)"
  by (cases conn) (auto simp: Close_def IsNil_def connClose_def handleOf_def handleOK_def split: option.splits)

lemma frame_dialTCP: "dialTCP w c = Returns (b, c') \<Longrightarrow> frame c c'"
  by (auto simp: dialTCP_def frame_def emit_def retries_def wellFormed_def handleOK_def Let_def no_Retry_in_Log
      split: outcome.splits prod.splits sum.splits)

lemma frame_dialUDP: "dialUDP w c = Returns (b, c') \<Longrightarrow> frame c c'"
  by (auto simp: dialUDP_def frame_def emit_def retries_def wellFormed_def handleOK_def Let_def no_Retry_in_Log
      split: outcome.splits prod.splits sum.splits)

lemma frame_UpdateServerConn:
  assumes "UpdateServerConn w c = Returns (b, c')"
  shows "frame c c'"
proof -
  let ?A = "if TCP (Service c) \<noteq> [] \<or> ReverseMetadata c \<noteq> None then dialTCP w c else Returns (True, c)"
  show ?thesis
  proof (cases ?A)
    case Panics
    with assms show ?thesis by (simp add: UpdateServerConn_def)
  next
    case (Returns r1)
    obtain ok1 c1 where r1: "r1 = (ok1, c1)" by (cases r1) auto
    have f1: "frame c c1"
      using Returns r1 by (auto simp: frame_refl dest: frame_dialTCP split: if_splits)
    show ?thesis
    proof (cases ok1)
      case False
      with assms Returns r1 have "c' = c1" by (simp add: UpdateServerConn_def)
      with f1 show ?thesis by simp
    next
      case True
      let ?B = "if UDP (Service c) \<noteq> [] \<or> ReverseMetadata c1 \<noteq> None then dialUDP w c1 else Returns (True, c1)"
      show ?thesis
      proof (cases ?B)
        case Panics
        with assms Returns r1 True show ?thesis by (simp add: UpdateServerConn_def)
      next
        case (Returns r2)
        obtain ok2 c2 where r2: "r2 = (ok2, c2)" by (cases r2) auto
        have f2: "frame c1 c2"
          using Returns r2 by (auto simp: frame_refl dest: frame_dialUDP split: if_splits)
        have f3: "frame c2 (c2\<lparr>connected := True\<rparr>)"
          by (auto simp: frame_def retries_def wellFormed_def)
        from assms \<open>?A = Returns r1\<close> r1 True Returns r2
        have "c' = c2 \<or> c' = c2\<lparr>connected := True\<rparr>"
          by (simp add: UpdateServerConn_def split: if_splits)
        with f1 f2 f3 show ?thesis by (auto intro: frame_trans)
      qed
    qed
  qed
qed

lemma frame_copyReversePorts: "copyReversePorts c = Returns c' \<Longrightarrow> frame c c'"
  by (auto simp: copyReversePorts_def frame_def retries_def wellFormed_def pointerOK_def
      split: option.splits outcome.splits)

lemma frame_SetMetadata: "frame c (snd (SetMetadata lib s c))"
  by (auto simp: SetMetadata_def ReadMetadata_def frame_def retries_def wellFormed_def emit_def Let_def pointerOK_def
      split: option.splits prod.splits)


lemma frame_emit_Log: "frame c (emit [Log m] c)"
  by (auto simp: frame_def emit_def retries_def wellFormed_def)

lemma frame_receiver: "frame c (c\<lparr>PaymentReceiver := r\<rparr>)"
  by (auto simp: frame_def retries_def wellFormed_def)

lemma frame_prices: "frame c (c\<lparr>EntryToExitPrice := a, ExitToEntryPrice := b\<rparr>)"
  by (auto simp: frame_def retries_def wellFormed_def)

lemma candidate_nonconforming:
  assumes "\<not> conforming ext (EntryToExitMaxPrice c) (ExitToEntryMaxPrice c) (subscriber, metadataString)"
  shows "fst (candidate ext w subscriber metadataString c) = Continue"
  using assms
  by (auto simp: conforming_def candidate_def SetMetadata_def ReadMetadata_def load_def emit_def Let_def
      split: prod.splits option.splits sum.splits)


lemma dialTCP_ok:
  assumes "dialsSucceed w" "handleOK (tcpConn c)" "load (store c) (Metadata c) = Returns md"
  shows "\<exists>c'. dialTCP w c = Returns (True, c') \<and> udpConn c' = udpConn c \<and> store c' = store c
            \<and> Metadata c' = Metadata c \<and> ReverseMetadata c' = ReverseMetadata c
            \<and> EntryToExitPrice c' = EntryToExitPrice c \<and> ExitToEntryPrice c' = ExitToEntryPrice c"
proof -
  obtain cl lg where 1: "Close connClose (tcpConn c) (closed c) = Returns (cl, lg)"
    using Close_connClose [OF assms(2)] by blast
  obtain h where 2: "netDialTimeout w (IP md @ '':'' @ Itoa (sint (TCPPort md))) (DialTimeout c) = Inr h"
    using assms(1) unfolding dialsSucceed_def by blast
  show ?thesis
    using 1 2 assms(3) by (simp add: dialTCP_def emit_def Let_def)
qed

lemma dialUDP_ok:
  assumes "dialsSucceed w" "handleOK (udpConn c)" "load (store c) (Metadata c) = Returns md"
  shows "\<exists>c'. dialUDP w c = Returns (True, c')
            \<and> EntryToExitPrice c' = EntryToExitPrice c \<and> ExitToEntryPrice c' = ExitToEntryPrice c"
proof -
  obtain cl lg where 1: "Close connClose (udpConn c) (closed c) = Returns (cl, lg)"
    using Close_connClose [OF assms(2)] by blast
  obtain h where 2: "netDialUDP w (IP md) (UDPPort md) = Inr h"
    using assms(1) unfolding dialsSucceed_def by blast
  show ?thesis
    using 1 2 assms(3) by (simp add: dialUDP_def emit_def Let_def)
qed

lemma UpdateServerConn_ok:
  assumes "dialsSucceed w" "handleOK (tcpConn c)" "handleOK (udpConn c)"
    and "load (store c) (Metadata c) = Returns md"
  shows "\<exists>c'. UpdateServerConn w c = Returns (True, c')
            \<and> EntryToExitPrice c' = EntryToExitPrice c \<and> ExitToEntryPrice c' = ExitToEntryPrice c"
proof -
  let ?A = "if TCP (Service c) \<noteq> [] \<or> ReverseMetadata c \<noteq> None then dialTCP w c else Returns (True, c)"
  obtain c1 where 1: "?A = Returns (True, c1)" and k: "udpConn c1 = udpConn c" "store c1 = store c"
      "Metadata c1 = Metadata c" "ReverseMetadata c1 = ReverseMetadata c"
      "EntryToExitPrice c1 = EntryToExitPrice c" "ExitToEntryPrice c1 = ExitToEntryPrice c"
    using dialTCP_ok [OF assms(1,2,4)] by (cases "TCP (Service c) \<noteq> [] \<or> ReverseMetadata c \<noteq> None") auto
  let ?B = "if UDP (Service c) \<noteq> [] \<or> ReverseMetadata c1 \<noteq> None then dialUDP w c1 else Returns (True, c1)"
  have "handleOK (udpConn c1)" "load (store c1) (Metadata c1) = Returns md"
    using k assms by simp_all
  from dialUDP_ok [OF assms(1) this]
  obtain c2 where 2: "?B = Returns (True, c2)"
      and k2: "EntryToExitPrice c2 = EntryToExitPrice c1" "ExitToEntryPrice c2 = ExitToEntryPrice c1"
    by (cases "UDP (Service c) \<noteq> [] \<or> ReverseMetadata c1 \<noteq> None") auto
  have "UpdateServerConn w c = Returns (True, c2\<lparr>connected := True\<rparr>)"
    unfolding UpdateServerConn_def Let_def 1 using 2 by simp
  with k k2 show ?thesis by simp
qed

lemma copyReversePorts_ok:
  assumes "pointerOK (store c) (ReverseMetadata c)" "load (store c) (Metadata c) = Returns md"
  shows "\<exists>c' md'. copyReversePorts c = Returns c' \<and> tcpConn c' = tcpConn c \<and> udpConn c' = udpConn c
           \<and> load (store c') (Metadata c') = Returns md'
           \<and> EntryToExitPrice c' = EntryToExitPrice c \<and> ExitToEntryPrice c' = ExitToEntryPrice c"
  using assms
  by (auto simp: copyReversePorts_def pointerOK_def load_def split: option.splits if_splits)


lemma prices_dialTCP:
  "dialTCP w c = Returns (b, c') \<Longrightarrow> EntryToExitPrice c' = EntryToExitPrice c \<and> ExitToEntryPrice c' = ExitToEntryPrice c"
  by (auto simp: dialTCP_def emit_def Let_def split: outcome.splits prod.splits sum.splits)

lemma prices_dialUDP:
  "dialUDP w c = Returns (b, c') \<Longrightarrow> EntryToExitPrice c' = EntryToExitPrice c \<and> ExitToEntryPrice c' = ExitToEntryPrice c"
  by (auto simp: dialUDP_def emit_def Let_def split: outcome.splits prod.splits sum.splits)

lemma prices_UpdateServerConn:
  assumes "UpdateServerConn w c = Returns (b, c')"
  shows "EntryToExitPrice c' = EntryToExitPrice c \<and> ExitToEntryPrice c' = ExitToEntryPrice c"
proof -
  let ?A = "if TCP (Service c) \<noteq> [] \<or> ReverseMetadata c \<noteq> None then dialTCP w c else Returns (True, c)"
  show ?thesis
  proof (cases ?A)
    case Panics
    with assms show ?thesis by (simp add: UpdateServerConn_def)
  next
    case (Returns r1)
    obtain ok1 c1 where r1: "r1 = (ok1, c1)" by (cases r1) auto
    have f1: "EntryToExitPrice c1 = EntryToExitPrice c \<and> ExitToEntryPrice c1 = ExitToEntryPrice c"
      using Returns r1 by (auto dest: prices_dialTCP split: if_splits)
    show ?thesis
    proof (cases ok1)
      case False
      with assms Returns r1 have "c' = c1" by (simp add: UpdateServerConn_def)
      with f1 show ?thesis by simp
    next
      case True
      let ?B = "if UDP (Service c) \<noteq> [] \<or> ReverseMetadata c1 \<noteq> None then dialUDP w c1 else Returns (True, c1)"
      show ?thesis
      proof (cases ?B)
        case Panics
        with assms Returns r1 True show ?thesis by (simp add: UpdateServerConn_def)
      next
        case (Returns r2)
        obtain ok2 c2 where r2: "r2 = (ok2, c2)" by (cases r2) auto
        have f2: "EntryToExitPrice c2 = EntryToExitPrice c1 \<and> ExitToEntryPrice c2 = ExitToEntryPrice c1"
          using Returns r2 by (auto dest: prices_dialUDP split: if_splits)
        from assms \<open>?A = Returns r1\<close> r1 True Returns r2
        have "c' = c2 \<or> c' = c2\<lparr>connected := True\<rparr>"
          by (simp add: UpdateServerConn_def split: if_splits)
        with f1 f2 show ?thesis by auto
      qed
    qed
  qed
qed

lemma prices_copyReversePorts:
  "copyReversePorts c = Returns c' \<Longrightarrow> EntryToExitPrice c' = EntryToExitPrice c \<and> ExitToEntryPrice c' = ExitToEntryPrice c"
  by (auto simp: copyReversePorts_def split: option.splits outcome.splits)

lemma candidate_committed:
  assumes "fst (candidate ext w subscriber metadataString c) = Break"
    and "ParsePrice ext (Price (fst (Unmarshal ext metadataString))) = Inr (e2x, x2e)"
  shows "\<not> EntryToExitMaxPrice c <s e2x \<and> \<not> ExitToEntryMaxPrice c <s x2e
       \<and> EntryToExitPrice (snd (candidate ext w subscriber metadataString c)) = e2x
       \<and> ExitToEntryPrice (snd (candidate ext w subscriber metadataString c)) = x2e"
  using assms
  by (auto simp: candidate_def SetMetadata_def ReadMetadata_def load_def emit_def Let_def
      split: prod.splits option.splits sum.splits if_splits outcome.splits
      dest!: prices_copyReversePorts prices_UpdateServerConn)


lemma candidate_conforming:
  assumes conf: "conforming ext (EntryToExitMaxPrice c) (ExitToEntryMaxPrice c) (subscriber, metadataString)"
    and wf: "wellFormed c" and dial: "dialsSucceed w"
  shows "fst (candidate ext w subscriber metadataString c) = Break"
proof -
  obtain md where u: "Unmarshal ext metadataString = (md, None)"
    using conf by (auto simp: conforming_def split: prod.splits option.splits)
  define c1 where "c1 = c\<lparr>Metadata := Some (length (store c)), store := store c @ [md]\<rparr>"
  have sm: "SetMetadata ext metadataString c = (True, c1)"
    by (simp add: SetMetadata_def ReadMetadata_def u c1_def)
  have ld: "load (store c1) (Metadata c1) = Returns md"
    by (simp add: load_def c1_def)
  have "\<exists>receiver. (if length (BeneficiaryAddr md) > 0 then Inr (BeneficiaryAddr md)
                   else deriveReceiver ext subscriber) = Inr receiver"
    using conf u by (cases "BeneficiaryAddr md = []") (auto simp: conforming_def split: sum.splits)
  then obtain receiver where rc: "(if length (BeneficiaryAddr md) > 0 then Inr (BeneficiaryAddr md)
                   else deriveReceiver ext subscriber) = Inr receiver"
    by blast
  obtain e2x x2e where pp: "ParsePrice ext (Price md) = Inr (e2x, x2e)"
      and ok: "\<not> EntryToExitMaxPrice c <s e2x" "\<not> ExitToEntryMaxPrice c <s x2e"
    using conf u by (auto simp: conforming_def split: sum.splits)
  define c3 where "c3 = c1\<lparr>PaymentReceiver := receiver, EntryToExitPrice := e2x, ExitToEntryPrice := x2e\<rparr>"
  have p3: "pointerOK (store c3) (ReverseMetadata c3)"
    using wf by (auto simp: wellFormed_def pointerOK_def c3_def c1_def split: option.splits)
  have l3: "load (store c3) (Metadata c3) = Returns md"
    using ld by (simp add: c3_def)
  from copyReversePorts_ok [OF p3 l3] obtain c4 md' where
    c4: "copyReversePorts c3 = Returns c4" "tcpConn c4 = tcpConn c3" "udpConn c4 = udpConn c3"
        "load (store c4) (Metadata c4) = Returns md'"
    by blast
  have h4: "handleOK (tcpConn c4)" "handleOK (udpConn c4)"
    using wf c4 by (simp_all add: wellFormed_def c3_def c1_def)
  from UpdateServerConn_ok [OF dial h4 c4(4)] obtain c5 where
    c5: "UpdateServerConn w c4 = Returns (True, c5)" by blast
  have m: "EntryToExitMaxPrice c1 = EntryToExitMaxPrice c" "ExitToEntryMaxPrice c1 = ExitToEntryMaxPrice c"
    by (simp_all add: c1_def)
  show ?thesis
    unfolding candidate_def sm
    using ld rc pp ok c4(1) c5 m
    by (simp add: c3_def)
qed

lemma frame_candidate: "frame c (snd (candidate ext w subscriber metadataString c))"
proof -
  obtain ok c1 where sm: "SetMetadata ext metadataString c = (ok, c1)"
    by (cases "SetMetadata ext metadataString c") auto
  have f1: "frame c c1"
    using frame_SetMetadata [of c ext metadataString] sm by simp
  have "frame c1 (snd (candidate ext w subscriber metadataString c))"
    unfolding candidate_def sm
    by (auto simp: Let_def frame_refl frame_emit_Log
        split: outcome.splits sum.splits prod.splits
        intro!: frame_trans [OF frame_receiver frame_emit_Log]
        intro: frame_trans [OF frame_receiver frame_prices]
          frame_trans [OF frame_trans [OF frame_receiver frame_prices] frame_copyReversePorts]
          frame_trans [OF frame_trans [OF frame_trans [OF frame_receiver frame_prices] frame_copyReversePorts] frame_UpdateServerConn])
  with f1 show ?thesis by (rule frame_trans)
qed

lemma frame_emit_Retry: "frame c c' \<Longrightarrow> retries (emit [Retry] c') = Suc (retries c) \<and> wellFormed (emit [Retry] c') = wellFormed c'
   \<and> EntryToExitMaxPrice (emit [Retry] c') = EntryToExitMaxPrice c \<and> ExitToEntryMaxPrice (emit [Retry] c') = ExitToEntryMaxPrice c"
  by (auto simp: frame_def emit_def retries_def wellFormed_def)

lemma pass_sampled:
  assumes "sampled w topic = Some (subscriber, metadataString)"
  shows "\<exists>c1. pass ext w topic c = candidate ext w subscriber metadataString c1 \<and> frame c c1"
  using assms
  by (auto simp: sampled_def pass_def Let_def emit_def frame_def retries_def wellFormed_def
      split: sum.splits if_splits list.splits)

lemma pass_nonconforming:
  assumes "sampled w topic = Some cand"
    and "\<not> conforming ext (EntryToExitMaxPrice c) (ExitToEntryMaxPrice c) cand"
  shows "fst (pass ext w topic c) = Continue \<and> frame c (snd (pass ext w topic c))"
proof -
  obtain subscriber metadataString where cd: "cand = (subscriber, metadataString)" by (cases cand) auto
  from pass_sampled [OF assms(1) [unfolded cd], of ext c] obtain c1 where
    p: "pass ext w topic c = candidate ext w subscriber metadataString c1" and f: "frame c c1" by blast
  have "\<not> conforming ext (EntryToExitMaxPrice c1) (ExitToEntryMaxPrice c1) (subscriber, metadataString)"
    using assms(2) f cd by (simp add: frame_def)
  from candidate_nonconforming [OF this] frame_candidate [of c1 ext w subscriber metadataString] f p
  show ?thesis by (auto intro: frame_trans)
qed

lemma pass_conforming:
  assumes "sampled w topic = Some cand"
    and "conforming ext (EntryToExitMaxPrice c) (ExitToEntryMaxPrice c) cand"
    and "wellFormed c" "dialsSucceed w"
  shows "fst (pass ext w topic c) = Break \<and> frame c (snd (pass ext w topic c))"
proof -
  obtain subscriber metadataString where cd: "cand = (subscriber, metadataString)" by (cases cand) auto
  from pass_sampled [OF assms(1) [unfolded cd], of ext c] obtain c1 where
    p: "pass ext w topic c = candidate ext w subscriber metadataString c1" and f: "frame c c1" by blast
  have "conforming ext (EntryToExitMaxPrice c1) (ExitToEntryMaxPrice c1) (subscriber, metadataString)"
    "wellFormed c1"
    using assms f cd by (simp_all add: frame_def)
  from candidate_conforming [OF this assms(4)] frame_candidate [of c1 ext w subscriber metadataString] f p
  show ?thesis by (auto intro: frame_trans)
qed

lemma RandomSubscriber_first_conforming:
  assumes "\<forall>r \<in> set pre. \<exists>cand. sampled r topic = Some cand
             \<and> \<not> conforming ext (EntryToExitMaxPrice c) (ExitToEntryMaxPrice c) cand"
    and "sampled w topic = Some cand"
    and "conforming ext (EntryToExitMaxPrice c) (ExitToEntryMaxPrice c) cand"
    and "dialsSucceed w" and "wellFormed c"
  shows "\<exists>c'. RandomSubscriber ext topic (pre @ w # post) c = Some (Ok, c')
            \<and> retries c' = retries c + length pre"
  using assms
proof (induction pre arbitrary: c)
  case Nil
  from pass_conforming [OF Nil(2,3,5,4)] obtain c' where
    "pass ext w topic c = (Break, c')" and "frame c c'"
    by (cases "pass ext w topic c") auto
  then show ?case by (auto simp: frame_def)
next
  case (Cons r pre)
  from Cons.prems(1) obtain cd where r: "sampled r topic = Some cd"
      "\<not> conforming ext (EntryToExitMaxPrice c) (ExitToEntryMaxPrice c) cd"
    by auto
  from pass_nonconforming [OF r] obtain c1 where
    p: "pass ext r topic c = (Continue, c1)" and f: "frame c c1"
    by (cases "pass ext r topic c") auto
  let ?c = "emit [Retry] c1"
  note k = frame_emit_Retry [OF f]
  have wf: "wellFormed ?c" using k f Cons.prems(5) by (simp add: frame_def)
  have "\<exists>c'. RandomSubscriber ext topic (pre @ w # post) ?c = Some (Ok, c')
            \<and> retries c' = retries ?c + length pre"
    using Cons.prems k wf by (intro Cons.IH) simp_all
  then show ?case using p k by auto
qed

lemma RandomSubscriber_all_nonconforming:
  assumes "\<forall>r \<in> set rs. \<exists>cand. sampled r topic = Some cand
             \<and> \<not> conforming ext (EntryToExitMaxPrice c) (ExitToEntryMaxPrice c) cand"
  shows "RandomSubscriber ext topic rs c = None"
  using assms
proof (induction rs arbitrary: c)
  case Nil
  show ?case by simp
next
  case (Cons r rs)
  from Cons.prems obtain cd where r: "sampled r topic = Some cd"
      "\<not> conforming ext (EntryToExitMaxPrice c) (ExitToEntryMaxPrice c) cd"
    by auto
  from pass_nonconforming [OF r] obtain c1 where
    p: "pass ext r topic c = (Continue, c1)" and f: "frame c c1"
    by (cases "pass ext r topic c") auto
  note k = frame_emit_Retry [OF f]
  have "RandomSubscriber ext topic rs (emit [Retry] c1) = None"
    using Cons.prems k by (intro Cons.IH) simp_all
  then show ?case using p by simp
qed

lemma sampled_alice: "sampled (directoryRound exampleDirectory 0 d) topic = Some (''alice'', ''not json'')"
  by (simp add: sampled_def directoryRound_def exampleDirectory_def)

lemma sampled_bob: "sampled (directoryRound exampleDirectory 1 d) topic = Some (''bob'', exampleDescriptor)"
  by (simp add: sampled_def directoryRound_def exampleDirectory_def)

lemma alice_nonconforming: "\<not> conforming exampleExtern a b (''alice'', ''not json'')"
  by (simp add: conforming_def Unmarshal_not_json)

lemma example_price: "ParsePrice exampleExtern (Price exampleMetadata) = Inr (100000, 200000)"
  by (simp add: exampleExtern_def exampleMetadata_def)

lemma example_receiver: "deriveReceiver exampleExtern ''bob'' = Inr ''NKNreceiver''"
  by (simp add: deriveReceiver_def exampleExtern_def)

lemma bob_conforming: "conforming exampleExtern 1000000 1000000 (''bob'', exampleDescriptor)"
  by (simp add: conforming_def Unmarshal_example example_price example_receiver word_sless_alt)

lemma bob_too_dear: "\<not> conforming exampleExtern 10000 1000000 (''bob'', exampleDescriptor)"
  by (simp add: conforming_def Unmarshal_example example_price example_receiver word_sless_alt)

lemma example_wellFormed: "wellFormed (exampleCommon a b)"
  by (simp add: wellFormed_def exampleCommon_def handleOK_def pointerOK_def)

lemma directory_dialsSucceed: "dialsSucceed (directoryRound dir k True)"
  by (simp add: dialsSucceed_def directoryRound_def)

lemma example_price2: "ParsePrice exampleExtern ''0.001,0.002'' = Inr (100000, 200000)"
  by (simp add: exampleExtern_def)

lemma example_guard:
  "\<not> Reverse (exampleCommon a b)" "\<not> connected (exampleCommon a b)"
  "SubscriptionPrefix (exampleCommon a b) @ Name (Service (exampleCommon a b)) = ''tuna+1.httpproxy''"
  "EntryToExitMaxPrice (exampleCommon a b) = a" "ExitToEntryMaxPrice (exampleCommon a b) = b"
  "retries (exampleCommon a b) = 0"
  by (simp_all add: exampleCommon_def retries_def)

lemma conforming_iff:
  assumes "Unmarshal ext metadataString = (md, None)"
    and "BeneficiaryAddr md \<noteq> [] \<or> (\<exists>a. deriveReceiver ext subscriber = Inr a)"
    and "ParsePrice ext (Price md) = Inr (e2x, x2e)"
  shows "conforming ext maxE maxX (subscriber, metadataString)
           = (\<not> (sint maxE < sint e2x \<or> sint maxX < sint x2e))"
  using assms by (auto simp: conforming_def word_sless_alt)

lemma exceeding_nonconforming:
  assumes "ParsePrice ext (Price (fst (Unmarshal ext metadataString))) = Inr (e2x, x2e)"
    and "sint maxE < sint e2x \<or> sint maxX < sint x2e"
  shows "\<not> conforming ext maxE maxX (subscriber, metadataString)"
  using assms by (auto simp: conforming_def word_sless_alt split: prod.splits option.splits)

lemma example_candidate_dial_fails:
  "fst (candidate exampleExtern (directoryRound exampleDirectory 1 False) ''bob'' exampleDescriptor
          (exampleCommon 1000000 1000000)) = Continue"
  by (simp add: candidate_def SetMetadata_def ReadMetadata_def Unmarshal_example load_def
      example_price2 example_receiver exampleCommon_def exampleMetadata_def word_sless_alt
      copyReversePorts_def UpdateServerConn_def dialTCP_def Close_def directoryRound_def emit_def Let_def)

text \<open>
  C1. The claim that a candidate whose price parses is skipped exactly when a price
  exceeds its ceiling fails in one direction: the descriptor of the scenario, with both
  prices within the ceilings, is skipped all the same when the dial to it fails.
\<close>

theorem price_gate_counterexample:
  "Unmarshal exampleExtern exampleDescriptor = (exampleMetadata, None)
   \<and> ParsePrice exampleExtern (Price exampleMetadata) = Inr (100000, 200000)
   \<and> \<not> (sint (100000 :: Fixed64) > sint (1000000 :: Fixed64) \<or> sint (200000 :: Fixed64) > sint (1000000 :: Fixed64))
   \<and> fst (candidate exampleExtern (directoryRound exampleDirectory 1 False) ''bob'' exampleDescriptor
          (exampleCommon 1000000 1000000)) = Continue"
  using Unmarshal_example example_price example_candidate_dial_fails by simp

text \<open>
  C1, as amended. For every pair of ceilings and every candidate whose price string
  parses to \<open>(e2x, x2e)\<close>: when \<open>e2x\<close> exceeds the entry-to-exit ceiling or \<open>x2e\<close> the
  exit-to-entry ceiling the candidate is skipped; a candidate that is committed has both
  prices within the ceilings, and the session's two prices are its parsed prices; and
  when moreover the descriptor decodes, the payment receiver is given or can be derived,
  the session is well formed and the dials succeed, the candidate is skipped if and only
  if one of its prices exceeds its ceiling.
\<close>

theorem price_gate:
  assumes "ParsePrice ext (Price (fst (Unmarshal ext metadataString))) = Inr (e2x, x2e)"
  shows "(sint (EntryToExitMaxPrice c) < sint e2x \<or> sint (ExitToEntryMaxPrice c) < sint x2e
            \<longrightarrow> fst (candidate ext w subscriber metadataString c) = Continue)
       \<and> (fst (candidate ext w subscriber metadataString c) = Break
            \<longrightarrow> sint e2x \<le> sint (EntryToExitMaxPrice c) \<and> sint x2e \<le> sint (ExitToEntryMaxPrice c)
                \<and> EntryToExitPrice (snd (candidate ext w subscriber metadataString c)) = e2x
                \<and> ExitToEntryPrice (snd (candidate ext w subscriber metadataString c)) = x2e)
       \<and> (snd (Unmarshal ext metadataString) = None
            \<and> (BeneficiaryAddr (fst (Unmarshal ext metadataString)) \<noteq> []
                 \<or> (\<exists>a. deriveReceiver ext subscriber = Inr a))
            \<and> wellFormed c \<and> dialsSucceed w
            \<longrightarrow> (fst (candidate ext w subscriber metadataString c) = Continue
                  \<longleftrightarrow> sint (EntryToExitMaxPrice c) < sint e2x \<or> sint (ExitToEntryMaxPrice c) < sint x2e))"
proof (intro conjI impI)
  assume "sint (EntryToExitMaxPrice c) < sint e2x \<or> sint (ExitToEntryMaxPrice c) < sint x2e"
  from candidate_nonconforming [OF exceeding_nonconforming [OF assms this]]
  show "fst (candidate ext w subscriber metadataString c) = Continue" .
next
  assume b: "fst (candidate ext w subscriber metadataString c) = Break"
  from candidate_committed [OF b assms]
  show "sint e2x \<le> sint (EntryToExitMaxPrice c)" "sint x2e \<le> sint (ExitToEntryMaxPrice c)"
    "EntryToExitPrice (snd (candidate ext w subscriber metadataString c)) = e2x"
    "ExitToEntryPrice (snd (candidate ext w subscriber metadataString c)) = x2e"
    by (simp_all add: word_sless_alt)
next
  assume h: "snd (Unmarshal ext metadataString) = None
            \<and> (BeneficiaryAddr (fst (Unmarshal ext metadataString)) \<noteq> []
                 \<or> (\<exists>a. deriveReceiver ext subscriber = Inr a))
            \<and> wellFormed c \<and> dialsSucceed w"
  obtain md where u: "Unmarshal ext metadataString = (md, None)"
    using h by (cases "Unmarshal ext metadataString") auto
  have ci: "conforming ext (EntryToExitMaxPrice c) (ExitToEntryMaxPrice c) (subscriber, metadataString)
           = (\<not> (sint (EntryToExitMaxPrice c) < sint e2x \<or> sint (ExitToEntryMaxPrice c) < sint x2e))"
    using conforming_iff [OF u] h assms u by simp
  show "fst (candidate ext w subscriber metadataString c) = Continue
          \<longleftrightarrow> sint (EntryToExitMaxPrice c) < sint e2x \<or> sint (ExitToEntryMaxPrice c) < sint x2e"
  proof (cases "conforming ext (EntryToExitMaxPrice c) (ExitToEntryMaxPrice c) (subscriber, metadataString)")
    case True
    from candidate_conforming [OF True] h have "fst (candidate ext w subscriber metadataString c) = Break"
      by simp
    with True ci show ?thesis by simp
  next
    case False
    from candidate_nonconforming [OF False] False ci show ?thesis by simp
  qed
qed

theorem price_gate_witness:
  "ParsePrice exampleExtern (Price (fst (Unmarshal exampleExtern exampleDescriptor))) = Inr (100000, 200000)
   \<and> sint (EntryToExitMaxPrice (exampleCommon 10000 1000000)) < sint (100000 :: Fixed64)
   \<and> fst (candidate exampleExtern (directoryRound exampleDirectory 1 True) ''bob'' exampleDescriptor
          (exampleCommon 10000 1000000)) = Continue
   \<and> snd (Unmarshal exampleExtern exampleDescriptor) = None
   \<and> (\<exists>a. deriveReceiver exampleExtern ''bob'' = Inr a)
   \<and> wellFormed (exampleCommon 1000000 1000000)
   \<and> dialsSucceed (directoryRound exampleDirectory 1 True)
   \<and> fst (candidate exampleExtern (directoryRound exampleDirectory 1 True) ''bob'' exampleDescriptor
          (exampleCommon 1000000 1000000)) = Break
   \<and> EntryToExitPrice (snd (candidate exampleExtern (directoryRound exampleDirectory 1 True) ''bob''
          exampleDescriptor (exampleCommon 1000000 1000000))) = 100000
   \<and> ExitToEntryPrice (snd (candidate exampleExtern (directoryRound exampleDirectory 1 True) ''bob''
          exampleDescriptor (exampleCommon 1000000 1000000))) = 200000"
proof -
  let ?w = "directoryRound exampleDirectory 1 True"
  have h: "ParsePrice exampleExtern (Price (fst (Unmarshal exampleExtern exampleDescriptor))) = Inr (100000, 200000)"
    by (simp add: Unmarshal_example example_price)
  have a: "sint (EntryToExitMaxPrice (exampleCommon 10000 1000000)) < sint (100000 :: Fixed64)"
    by (simp add: example_guard)
  have b: "snd (Unmarshal exampleExtern exampleDescriptor) = None"
    "\<exists>a. deriveReceiver exampleExtern ''bob'' = Inr a"
    "wellFormed (exampleCommon 1000000 1000000)" "dialsSucceed ?w"
    by (simp_all add: Unmarshal_example example_receiver example_wellFormed directory_dialsSucceed)
  have c: "\<not> (sint (EntryToExitMaxPrice (exampleCommon 1000000 1000000)) < sint (100000 :: Fixed64)
            \<or> sint (ExitToEntryMaxPrice (exampleCommon 1000000 1000000)) < sint (200000 :: Fixed64))"
    by (simp add: example_guard)
  have d: "fst (candidate exampleExtern ?w ''bob'' exampleDescriptor (exampleCommon 1000000 1000000)) = Break"
    using candidate_conforming [where ext = exampleExtern and c = "exampleCommon 1000000 1000000"
        and w = ?w and subscriber = "''bob''" and metadataString = exampleDescriptor]
      bob_conforming example_wellFormed directory_dialsSucceed
    by (simp add: example_guard)
  show ?thesis
    using h a b c d
      price_gate [OF h, of "exampleCommon 10000 1000000" ?w "''bob''"]
      price_gate [OF h, of "exampleCommon 1000000 1000000" ?w "''bob''"]
    by simp
qed

section \<open>Properties of the negotiation: termination\<close>

text \<open>
  C3. The claim that the loop ends within as many skips as the directory has candidates,
  never sampling a failed offset again, fails: in a directory of two candidates of which
  the second conforms, a sampler that returns offset 0 three times and then offset 1
  makes the loop skip three times before it accepts; and as long as the sampler returns
  offset 0 the loop does not return.
\<close>

theorem resampling_counterexample:
  "length exampleDirectory = 2
   \<and> conforming exampleExtern 1000000 1000000 (exampleDirectory ! 1)
   \<and> map_option fst (CreateServerConn exampleExtern
        [directoryRound exampleDirectory 0 True, directoryRound exampleDirectory 0 True,
         directoryRound exampleDirectory 0 True, directoryRound exampleDirectory 1 True]
        False (exampleCommon 1000000 1000000)) = Some Ok
   \<and> map_option (retries \<circ> snd) (CreateServerConn exampleExtern
        [directoryRound exampleDirectory 0 True, directoryRound exampleDirectory 0 True,
         directoryRound exampleDirectory 0 True, directoryRound exampleDirectory 1 True]
        False (exampleCommon 1000000 1000000)) = Some 3
   \<and> CreateServerConn exampleExtern (replicate 100 (directoryRound exampleDirectory 0 True))
        False (exampleCommon 1000000 1000000) = None"
proof -
  let ?r0 = "directoryRound exampleDirectory 0 True" and ?r1 = "directoryRound exampleDirectory 1 True"
  let ?c = "exampleCommon 1000000 1000000" and ?t = "''tuna+1.httpproxy''"
  have bad: "\<exists>cand. sampled ?r0 ?t = Some cand
             \<and> \<not> conforming exampleExtern (EntryToExitMaxPrice ?c) (ExitToEntryMaxPrice ?c) cand"
    using sampled_alice alice_nonconforming by blast
  have good: "conforming exampleExtern (EntryToExitMaxPrice ?c) (ExitToEntryMaxPrice ?c) (''bob'', exampleDescriptor)"
    using bob_conforming by (simp add: example_guard)
  have "\<forall>r \<in> set [?r0, ?r0, ?r0]. \<exists>cand. sampled r ?t = Some cand
             \<and> \<not> conforming exampleExtern (EntryToExitMaxPrice ?c) (ExitToEntryMaxPrice ?c) cand"
    using bad by simp
  from RandomSubscriber_first_conforming [OF this sampled_bob good directory_dialsSucceed example_wellFormed, of "[]"]
  obtain c' where "RandomSubscriber exampleExtern ?t [?r0, ?r0, ?r0, ?r1] ?c = Some (Ok, c')" "retries c' = 3"
    by (auto simp: example_guard)
  then have 1: "CreateServerConn exampleExtern [?r0, ?r0, ?r0, ?r1] False ?c = Some (Ok, c')" "retries c' = 3"
    by (simp_all add: CreateServerConn_def example_guard)
  have "\<forall>r \<in> set (replicate 100 ?r0). \<exists>cand. sampled r ?t = Some cand
             \<and> \<not> conforming exampleExtern (EntryToExitMaxPrice ?c) (ExitToEntryMaxPrice ?c) cand"
    using bad by simp
  from RandomSubscriber_all_nonconforming [OF this]
  have 2: "CreateServerConn exampleExtern (replicate 100 ?r0) False ?c = None"
    by (simp add: CreateServerConn_def example_guard)
  have 3: "length exampleDirectory = 2" "exampleDirectory ! 1 = (''bob'', exampleDescriptor)"
    by (simp_all add: exampleDirectory_def)
  show ?thesis
    using 1 2 3 bob_conforming by simp
qed

text \<open>
  C3, as amended. Every pass of the loop samples an offset afresh. When the passes
  sample candidates that do not conform and then one that conforms and whose dials
  succeed, a negotiating \<open>CreateServerConn\<close> on a well-formed session returns success,
  after exactly as many skips as non-conforming candidates were sampled before.
\<close>

theorem negotiation_terminates:
  assumes "\<not> Reverse c" and "\<not> connected c \<or> force" and "wellFormed c"
    and "topic = SubscriptionPrefix c @ Name (Service c)"
    and "\<forall>r \<in> set pre. \<exists>cand. sampled r topic = Some cand
             \<and> \<not> conforming ext (EntryToExitMaxPrice c) (ExitToEntryMaxPrice c) cand"
    and "sampled w topic = Some cand"
    and "conforming ext (EntryToExitMaxPrice c) (ExitToEntryMaxPrice c) cand"
    and "dialsSucceed w"
  shows "\<exists>c'. CreateServerConn ext (pre @ w # post) force c = Some (Ok, c')
            \<and> retries c' = retries c + length pre"
  using RandomSubscriber_first_conforming [OF assms(5,6,7,8,3), of post] assms(1,2,4)
  by (auto simp: CreateServerConn_def)

theorem negotiation_terminates_witness:
  "\<not> Reverse (exampleCommon 1000000 1000000)
   \<and> \<not> connected (exampleCommon 1000000 1000000)
   \<and> wellFormed (exampleCommon 1000000 1000000)
   \<and> sampled (directoryRound exampleDirectory 0 True) ''tuna+1.httpproxy'' = Some (''alice'', ''not json'')
   \<and> \<not> conforming exampleExtern 1000000 1000000 (''alice'', ''not json'')
   \<and> sampled (directoryRound exampleDirectory 1 True) ''tuna+1.httpproxy'' = Some (''bob'', exampleDescriptor)
   \<and> conforming exampleExtern 1000000 1000000 (''bob'', exampleDescriptor)
   \<and> dialsSucceed (directoryRound exampleDirectory 1 True)
   \<and> (\<exists>c'. CreateServerConn exampleExtern
              [directoryRound exampleDirectory 0 True, directoryRound exampleDirectory 1 True]
              False (exampleCommon 1000000 1000000) = Some (Ok, c')
            \<and> retries c' = 1)"
proof -
  let ?r0 = "directoryRound exampleDirectory 0 True" and ?r1 = "directoryRound exampleDirectory 1 True"
  let ?c = "exampleCommon 1000000 1000000" and ?t = "''tuna+1.httpproxy''"
  have h1: "\<not> Reverse ?c" and h2: "\<not> connected ?c \<or> False" and h3: "wellFormed ?c"
    and h4: "?t = SubscriptionPrefix ?c @ Name (Service ?c)"
    by (simp_all add: example_guard example_wellFormed)
  have h5: "\<forall>r \<in> set [?r0]. \<exists>cand. sampled r ?t = Some cand
             \<and> \<not> conforming exampleExtern (EntryToExitMaxPrice ?c) (ExitToEntryMaxPrice ?c) cand"
    using sampled_alice alice_nonconforming by simp
  have h6: "sampled ?r1 ?t = Some (''bob'', exampleDescriptor)"
    by (rule sampled_bob)
  have h7: "conforming exampleExtern (EntryToExitMaxPrice ?c) (ExitToEntryMaxPrice ?c) (''bob'', exampleDescriptor)"
    using bob_conforming by (simp add: example_guard)
  have h8: "dialsSucceed ?r1"
    by (rule directory_dialsSucceed)
  show ?thesis
    using h1 h2 h3 h6 h7 h8 sampled_alice [of True "''tuna+1.httpproxy''"]
      alice_nonconforming [of 1000000 1000000]
      negotiation_terminates [OF h1 h2 h3 h4 h5 h6 h7 h8, of "[]"]
    by (simp add: example_guard)
qed

section \<open>Properties of the UDP pumps\<close>

text \<open>
  The session reaches the reconnect: a first \<open>CreateServerConn\<close> on a session for a UDP
  service dials socket 0 and starts its pumps; a second, forced one closes socket 0,
  dials socket 1 and starts pumps again.
\<close>

lemma pass_bob:
  assumes "tcpConn c = UntypedNil" "udpConn c = u" "handleOK u" "ReverseMetadata c = None"
    "Service c = \<lparr>Name = ''dns'', TCP = [], UDP = [53]\<rparr>"
    "EntryToExitMaxPrice c = 1000000" "ExitToEntryMaxPrice c = 1000000"
  shows "\<exists>c'. pass exampleExtern ((directoryRound exampleDirectory 1 True)\<lparr>netDialUDP := (\<lambda>a p. Inr h)\<rparr>) topic c = (Break, c')
     \<and> udpConn c' = Ptr h \<and> tcpConn c' = UntypedNil \<and> ReverseMetadata c' = None \<and> Service c' = Service c
     \<and> EntryToExitMaxPrice c' = 1000000 \<and> ExitToEntryMaxPrice c' = 1000000 \<and> connected c' \<and> Reverse c' = Reverse c
     \<and> SubscriptionPrefix c' = SubscriptionPrefix c
     \<and> startPumpEvents (trace c') = startPumpEvents (trace c) @ [h]
     \<and> closed c' = (case u of Ptr k \<Rightarrow> insert k (closed c) | _ \<Rightarrow> closed c)"
  using assms
  by (cases u)
     (auto simp: pass_def directoryRound_def exampleDirectory_def candidate_def SetMetadata_def
      ReadMetadata_def Unmarshal_example load_def exampleMetadata_def example_price2 example_receiver
      word_sless_alt copyReversePorts_def UpdateServerConn_def dialUDP_def Close_def IsNil_def connClose_def
      handleOf_def handleOK_def emit_def Let_def startPumpEvents_def insert_absorb)

lemma forced_reconnect:
  "\<exists>c1 c2.
     CreateServerConn exampleExtern
       [(directoryRound exampleDirectory 1 True)\<lparr>netDialUDP := (\<lambda>a p. Inr 0)\<rparr>] False exampleUDPCommon
       = Some (Ok, c1)
     \<and> startPumpEvents (trace c1) = [0] \<and> closed c1 = {} \<and> udpConn c1 = Ptr 0
     \<and> CreateServerConn exampleExtern
       [(directoryRound exampleDirectory 1 True)\<lparr>netDialUDP := (\<lambda>a p. Inr 1)\<rparr>] True c1
       = Some (Ok, c2)
     \<and> startPumpEvents (trace c2) = [0, 1] \<and> closed c2 = {0} \<and> udpConn c2 = Ptr 1"
proof -
  let ?c = exampleUDPCommon
  have c: "tcpConn ?c = UntypedNil" "udpConn ?c = TypedNil" "handleOK TypedNil" "ReverseMetadata ?c = None"
    "Service ?c = \<lparr>Name = ''dns'', TCP = [], UDP = [53]\<rparr>"
    "EntryToExitMaxPrice ?c = 1000000" "ExitToEntryMaxPrice ?c = 1000000"
    and g: "\<not> Reverse ?c" "\<not> connected ?c" "closed ?c = {}" "trace ?c = []"
    by (simp_all add: exampleUDPCommon_def exampleCommon_def handleOK_def)
  from pass_bob [OF c, of 0 "SubscriptionPrefix ?c @ Name (Service ?c)"]
  obtain c1 where 1: "pass exampleExtern ((directoryRound exampleDirectory 1 True)\<lparr>netDialUDP := (\<lambda>a p. Inr 0)\<rparr>)
        (SubscriptionPrefix ?c @ Name (Service ?c)) ?c = (Break, c1)"
    and k1: "udpConn c1 = Ptr 0" "tcpConn c1 = UntypedNil" "ReverseMetadata c1 = None" "Service c1 = Service ?c"
      "EntryToExitMaxPrice c1 = 1000000" "ExitToEntryMaxPrice c1 = 1000000" "Reverse c1 = Reverse ?c"
      "startPumpEvents (trace c1) = startPumpEvents (trace ?c) @ [0]" "closed c1 = closed ?c"
    by auto
  have h: "handleOK (Ptr 0)" by (simp add: handleOK_def)
  from pass_bob [OF k1(2) k1(1) h k1(3) k1(4) [unfolded c(5)] k1(5,6), of 1 "SubscriptionPrefix c1 @ Name (Service c1)"]
  obtain c2 where 2: "pass exampleExtern ((directoryRound exampleDirectory 1 True)\<lparr>netDialUDP := (\<lambda>a p. Inr 1)\<rparr>)
        (SubscriptionPrefix c1 @ Name (Service c1)) c1 = (Break, c2)"
    and k2: "udpConn c2 = Ptr 1" "startPumpEvents (trace c2) = startPumpEvents (trace c1) @ [1]"
      "closed c2 = insert 0 (closed c1)"
    by auto
  show ?thesis
    using 1 2 k1 k2 g by (simp add: CreateServerConn_def startPumpEvents_def)
qed

lemma step_nil_chan:
  "\<not> closeChanMade s \<Longrightarrow> returnedWriters s = 0
     \<Longrightarrow> \<not> closeChanMade (step a s) \<and> returnedWriters (step a s) = 0"
  by (cases a) (auto simp: step_def returnedWriters_def)

lemma run_nil_chan:
  "\<not> closeChanMade s \<Longrightarrow> returnedWriters s = 0
     \<Longrightarrow> \<not> closeChanMade (fold step sched s) \<and> returnedWriters (fold step sched s) = 0"
proof (induction sched arbitrary: s)
  case Nil
  then show ?case by simp
next
  case (Cons a sched)
  from step_nil_chan [OF Cons.prems] Cons.IH [of "step a s"] show ?case by simp
qed

lemma stolen_reached:
  "fold step (reconnect @ [ReadReturns 0, ReceiveClose 0 1]) (startPumps True) = stolen"
  by (simp add: reconnect_def StartUDPReaderWriter_def step_def startPumps_def stolen_def)

lemma stolen_step: "taskAction a \<Longrightarrow> step a stolen = stolen"
  by (cases a) (auto simp: taskAction_def step_def stolen_def nth_Cons split: nat.splits)

lemma stolen_stuck: "fold step (filter taskAction sched) stolen = stolen"
  by (induction sched) (simp_all add: stolen_step)

text \<open>
  C9. The close of a socket does not reach the writer of that socket in every run. A
  session is reconnected, so that its old socket is closed and a second reader and
  writer are started on the same close channel. If the close channel is nil, no writer
  ever returns, whatever happens afterwards. If it is a made channel, the one value that
  the old reader sends can be received by the new writer: then the new writer has
  returned although its socket is open, and the old writer stays in its \<open>select\<close>
  whatever the tasks do from there on, left running after its socket was closed.
\<close>

theorem close_signal_misses_its_writer:
  "returnedWriters (fold step sched (fold step (reconnect @ [ReadReturns 0]) (startPumps False))) = 0
   \<and> fold step (reconnect @ [ReadReturns 0, ReceiveClose 0 1]) (startPumps True) = stolen
   \<and> fold step (filter taskAction sched) stolen = stolen"
proof -
  have "\<not> closeChanMade (startPumps False)" "returnedWriters (startPumps False) = 0"
    by (simp_all add: startPumps_def returnedWriters_def)
  from run_nil_chan [OF this, of "(reconnect @ [ReadReturns 0]) @ sched"]
  have "returnedWriters (fold step sched (fold step (reconnect @ [ReadReturns 0]) (startPumps False))) = 0"
    by (simp only: fold_append comp_apply)
  with stolen_reached stolen_stuck show ?thesis
    by blast
qed

end
